theory Spec2Isabelle
  imports Complex_Main "HOL-Library.Word"
begin

unbundle bit_operations_syntax

section \<open>Exceptions\<close>

text \<open>
  The JavaScript exceptions that the modelled code can meet. A pure function that may
  throw returns \<open>exn + 'a\<close> (\<open>Inl\<close> is the exception; for an \<^verbatim>\<open>async\<close> function it is
  the rejection of the returned promise). \<open>ExternalError\<close> is an error raised by an
  external collaborator (the content generator, \<^verbatim>\<open>html2canvas\<close>), with its message.
\<close>

datatype exn =
    InvalidCharacterError
  | RangeError
  | NotSupportedError
  | InvalidStateError
  | ExternalError string

section \<open>PCM decoder (services/geminiService.ts)\<close>

subsection \<open>The platform's \<^verbatim>\<open>atob\<close>\<close>

text \<open>
  \<^verbatim>\<open>atob\<close> is the browser's forgiving-base64 decoder: ASCII whitespace is removed; when
  the remaining length is a multiple of four, one or two trailing \<^verbatim>\<open>=\<close> are removed; a
  length that leaves remainder 1 modulo 4, or a character outside the base64 alphabet,
  throws \<^verbatim>\<open>InvalidCharacterError\<close>; every group of four sextets gives three bytes, a last
  group of three gives two bytes and a last group of two gives one byte (the spare bits
  are dropped). The result is a binary string: one character per byte.
\<close>

definition ascii_whitespace :: "char \<Rightarrow> bool" where
  "ascii_whitespace c = ((of_char c :: nat) \<in> {9, 10, 12, 13, 32})"

definition base64_value :: "char \<Rightarrow> nat option" where
  "base64_value c =
     (let n = (of_char c :: nat) in
      if 65 \<le> n \<and> n \<le> 90 then Some (n - 65)
      else if 97 \<le> n \<and> n \<le> 122 then Some (n - 71)
      else if 48 \<le> n \<and> n \<le> 57 then Some (n + 4)
      else if n = 43 then Some 62
      else if n = 47 then Some 63
      else None)"

definition strip_padding :: "string \<Rightarrow> string" where
  "strip_padding d =
     (if d \<noteq> [] \<and> length d mod 4 = 0 \<and> last d = CHR ''=''
      then (if last (butlast d) = CHR ''='' then butlast (butlast d) else butlast d)
      else d)"

fun sextets_to_bytes :: "nat list \<Rightarrow> nat list" where
  "sextets_to_bytes (a # b # c # d # rest) =
     (a * 4 + b div 16) # ((b mod 16) * 16 + c div 4) # ((c mod 4) * 64 + d)
       # sextets_to_bytes rest"
| "sextets_to_bytes [a, b, c] = [a * 4 + b div 16, (b mod 16) * 16 + c div 4]"
| "sextets_to_bytes [a, b] = [a * 4 + b div 16]"
| "sextets_to_bytes _ = []"

definition atob :: "string \<Rightarrow> exn + nat list" where
  "atob base64 =
     (let d = strip_padding (filter (\<lambda>c. \<not> ascii_whitespace c) base64) in
      if length d mod 4 = 1 then Inl InvalidCharacterError
      else (case those (map base64_value d) of
              None \<Rightarrow> Inl InvalidCharacterError
            | Some vs \<Rightarrow> Inr (sextets_to_bytes vs)))"

text \<open>
  The binary string is modelled by the list of its character codes (each below 256),
  which is what \<^verbatim>\<open>charCodeAt\<close> reads. A JavaScript string holds UTF-16 code units; a
  code unit above 255 is outside the base64 alphabet, so the 8-bit characters of
  \<^typ>\<open>string\<close> lose no accepted input.
\<close>

subsection \<open>Index loops that fill an array\<close>

text \<open>
  \<^verbatim>\<open>for (let i = 0; i < n; i++) a[i] = f(i)\<close> over a typed array \<open>a\<close> of length \<open>n\<close>.
  A typed array ignores a write outside its range, and so does \<open>list_update\<close>.
\<close>

definition fill :: "nat \<Rightarrow> (nat \<Rightarrow> 'a) \<Rightarrow> 'a list \<Rightarrow> 'a list" where
  "fill n f a = fold (\<lambda>i a. a[i := f i]) [0..<n] a"

subsection \<open>decode\<close>

text \<open>
  \<^verbatim>\<open>
  function decode(base64: string) {
    const binaryString = atob(base64);
    const len = binaryString.length;
    const bytes = new Uint8Array(len);
    for (let i = 0; i < len; i++) { bytes[i] = binaryString.charCodeAt(i); }
    return bytes;
  }\<close>
\<close>

definition decode :: "string \<Rightarrow> exn + 8 word list" where
  "decode base64 =
     (case atob base64 of
        Inl e \<Rightarrow> Inl e
      | Inr binaryString \<Rightarrow>
          (let len = length binaryString;
               bytes = replicate len (0 :: 8 word)
           in Inr (fill len (\<lambda>i. of_nat (binaryString ! i)) bytes)))"

subsection \<open>Audio buffers\<close>

text \<open>
  An \<^verbatim>\<open>AudioBuffer\<close> with one channel: its sample rate and the samples of channel 0.
  A sample is a 32-bit float in the platform; a 16-bit integer divided by 32768 is
  represented exactly there, so the samples are modelled by real numbers.
  \<^verbatim>\<open>createBuffer\<close> throws \<^verbatim>\<open>NotSupportedError\<close> when the number of frames is zero (Web
  Audio: every argument must be positive); the channel count (1) and the rate (24000)
  this program passes are always accepted. A new buffer is silent.
\<close>

record audio_buffer =
  sampleRate :: nat
  channelData :: "real list"

definition duration :: "audio_buffer \<Rightarrow> real" where
  "duration b = real (length (channelData b)) / real (sampleRate b)"

definition createBuffer :: "nat \<Rightarrow> nat \<Rightarrow> exn + audio_buffer" where
  "createBuffer frameCount rate =
     (if frameCount = 0 then Inl NotSupportedError
      else Inr \<lparr>sampleRate = rate, channelData = replicate frameCount 0\<rparr>)"

subsection \<open>The 16-bit view\<close>

text \<open>
  \<^verbatim>\<open>new Int16Array(bytes.buffer)\<close> throws \<^verbatim>\<open>RangeError\<close> when the byte length is odd;
  otherwise element \<open>i\<close> is the signed 16-bit value of bytes \<open>2i\<close> (low) and \<open>2i+1\<close> (high):
  the view has the platform's byte order, little-endian on every platform the program
  runs on.
\<close>

definition int16_le :: "8 word \<Rightarrow> 8 word \<Rightarrow> 16 word" where
  "int16_le lo hi = word_of_nat (unat lo + 256 * unat hi)"

fun int16_pairs :: "8 word list \<Rightarrow> 16 word list" where
  "int16_pairs (lo # hi # bs) = int16_le lo hi # int16_pairs bs"
| "int16_pairs _ = []"

definition Int16Array :: "8 word list \<Rightarrow> exn + 16 word list" where
  "Int16Array bytes =
     (if odd (length bytes) then Inl RangeError else Inr (int16_pairs bytes))"

subsection \<open>createAudioBufferFromPCM\<close>

text \<open>
  \<^verbatim>\<open>
  export async function createAudioBufferFromPCM(base64Data, ctx, sampleRate = 24000) {
    const bytes = decode(base64Data);
    const dataInt16 = new Int16Array(bytes.buffer);
    const numChannels = 1;
    const frameCount = dataInt16.length / numChannels;
    const buffer = ctx.createBuffer(numChannels, frameCount, sampleRate);
    for (let channel = 0; channel < numChannels; channel++) {
      const channelData = buffer.getChannelData(channel);
      for (let i = 0; i < frameCount; i++) {
        channelData[i] = dataInt16[i * numChannels + channel] / 32768.0;
      }
    }
    return buffer;
  }\<close>
  With \<open>numChannels = 1\<close> the outer loop runs once, for channel 0.
\<close>

text \<open>
  For the statement of the decoder's contract: the signed 16-bit value that two bytes
  encode, low byte first (two's complement).
\<close>

definition signed16 :: "nat \<Rightarrow> nat \<Rightarrow> int" where
  "signed16 lo hi = (let v = lo + 256 * hi in if v < 32768 then int v else int v - 65536)"

definition pcm_sample :: "16 word \<Rightarrow> real" where
  "pcm_sample w = real_of_int (sint w) / 32768"

definition createAudioBufferFromPCM :: "string \<Rightarrow> nat \<Rightarrow> exn + audio_buffer" where
  "createAudioBufferFromPCM base64Data rate =
     (case decode base64Data of
        Inl e \<Rightarrow> Inl e
      | Inr bytes \<Rightarrow>
          (case Int16Array bytes of
             Inl e \<Rightarrow> Inl e
           | Inr dataInt16 \<Rightarrow>
               (let frameCount = length dataInt16 in
                case createBuffer frameCount rate of
                  Inl e \<Rightarrow> Inl e
                | Inr buffer \<Rightarrow>
                    Inr (buffer\<lparr>channelData :=
                          fill frameCount (\<lambda>i. pcm_sample (dataInt16 ! (i * 1 + 0)))
                            (channelData buffer)\<rparr>))))"

section \<open>Data model (types.ts)\<close>

record ExplanationStep =
  lineCode :: string
  explanation :: string

record TutorialData =
  title :: string
  language :: string
  code :: string
  overview :: string
  steps :: "ExplanationStep list"

datatype LoadingState = IDLE | GENERATING_CONTENT | GENERATING_AUDIO | READY | ERROR

section \<open>Segment registry\<close>

subsection \<open>generateAudioSegments (services/geminiService.ts)\<close>

text \<open>
  The narration synthesizer is an external collaborator. One call either throws or
  answers; the answer may lack the audio payload
  (\<^verbatim>\<open>response.candidates?.[0]?.content?.parts?.[0]?.inlineData?.data\<close> is undefined).
  The calls of one batch are independent, so the synthesizer is a function of the
  position of the call in the batch and of the text. Constructing the API client is
  taken to succeed.
\<close>

datatype tts_response = TtsThrows | TtsAnswers "string option"

type_synonym synthesizer = "nat \<Rightarrow> string \<Rightarrow> tts_response"

text \<open>
  \<^verbatim>\<open>
  const generateSegment = async (text: string): Promise<string | null> => {
    try {
      const response = await ai.models.generateContent({...});
      return response.candidates?.[0]?.content?.parts?.[0]?.inlineData?.data || null;
    } catch (error) { console.warn(...); return null; }
  };\<close>
  \<open>x || null\<close> is \<open>null\<close> for an undefined and for an empty payload.
\<close>

definition generateSegment :: "tts_response \<Rightarrow> string option" where
  "generateSegment r =
     (case r of
        TtsThrows \<Rightarrow> None
      | TtsAnswers None \<Rightarrow> None
      | TtsAnswers (Some d) \<Rightarrow> (if d = [] then None else Some d))"

text \<open>
  \<^verbatim>\<open>
  const segments = [data.overview, ...data.steps.map(step => step.explanation)];
  return Promise.all(segments.map(s => generateSegment(s)));\<close>
  No promise of the batch rejects, so \<^verbatim>\<open>Promise.all\<close> gives the results in the order of
  \<open>segments\<close>.
\<close>

definition segments :: "TutorialData \<Rightarrow> string list" where
  "segments d = overview d # map explanation (steps d)"

definition generateAudioSegments :: "synthesizer \<Rightarrow> TutorialData \<Rightarrow> string option list" where
  "generateAudioSegments tts d =
     map (\<lambda>(i, t). generateSegment (tts i t)) (zip [0..<length (segments d)] (segments d))"

subsection \<open>Decoding the batch (handleSubmit in App.tsx)\<close>

text \<open>
  \<^verbatim>\<open>
  const buffers = await Promise.all(audioBase64s.map(async (b64) => {
    if (b64) { return await createAudioBufferFromPCM(b64, ctx); }
    else { return ctx.createBuffer(1, 2 * 24000, 24000); }
  }));\<close>
  \<open>decodeSegment\<close> is the callback: the outcome of the promise of one segment.
  \<^verbatim>\<open>Promise.all\<close> resolves with all the values, in order, when every promise resolves, and
  rejects with the first rejection otherwise.
\<close>

definition decodeSegment :: "string option \<Rightarrow> exn + audio_buffer" where
  "decodeSegment b64 =
     (case b64 of
        None \<Rightarrow> createBuffer (2 * 24000) 24000
      | Some d \<Rightarrow>
          (if d \<noteq> [] then createAudioBufferFromPCM d 24000
           else createBuffer (2 * 24000) 24000))"

fun promise_all :: "(exn + 'a) list \<Rightarrow> exn + 'a list" where
  "promise_all [] = Inr []"
| "promise_all (Inl e # ps) = Inl e"
| "promise_all (Inr x # ps) =
     (case promise_all ps of Inl e \<Rightarrow> Inl e | Inr xs \<Rightarrow> Inr (x # xs))"

section \<open>The component's state (App.tsx)\<close>

text \<open>
  The React state and the refs of \<^verbatim>\<open>App\<close>, and what the platform holds for it.
  \<^item> \<open>audioContext\<close>: \<^verbatim>\<open>audioContextRef.current\<close> is not null.
  \<^item> \<open>audioSource\<close>: \<^verbatim>\<open>audioSourceRef.current\<close>. An \<^verbatim>\<open>AudioBufferSourceNode\<close> is an object
    compared by identity (\<^verbatim>\<open>===\<close>); the model numbers the nodes in the order
    \<^verbatim>\<open>playSegment\<close> creates them, and \<open>nextSource\<close> is the number of the next one.
  \<^item> \<open>onended\<close>: the \<^verbatim>\<open>onended\<close> handlers set so far, newest first: the node and the
    \<open>index\<close> its closure captured.
  \<^item> \<open>sounding\<close>: the nodes connected to \<^verbatim>\<open>ctx.destination\<close> that were started and have
    neither ended nor been stopped.
  \<^item> \<open>recorder\<close>, \<open>chunks\<close>, \<open>mimeType\<close>, \<open>onstop\<close>: the local variables of the latest
    \<^verbatim>\<open>handleExportVideo\<close> call: the state of its \<^verbatim>\<open>MediaRecorder\<close> (\<open>Inactive\<close> before one
    exists), the sizes of the blobs pushed to \<^verbatim>\<open>chunks\<close>, and whether
    \<^verbatim>\<open>recorder.onstop\<close> has been assigned.
  \<^item> \<open>downloads\<close>: the artifacts handed to the browser as downloads, oldest first:
    the type and the parts of each blob.
  \<^verbatim>\<open>ctx.currentTime\<close> is an input of the operations that read it (\<open>now\<close>). Times are real
  numbers of seconds. A handler reads the React state of the latest render, and a state
  update is rendered before the next task runs. The query text and the deep-dive panel
  are not part of the playback and export engine and are left out.
\<close>

datatype RecordingState = Inactive | Recording | Paused

record app =
  tutorialData :: "TutorialData option"
  loadingState :: LoadingState
  error :: "exn option"
  isPlaying :: bool
  currentStepIndex :: nat
  audioContext :: bool
  audioBuffers :: "audio_buffer list"
  audioSource :: "nat option"
  startTime :: real
  pauseOffset :: real
  isExporting :: bool
  activeBufferIndex :: nat
  nextSource :: nat
  onended :: "(nat \<times> nat) list"
  sounding :: "nat set"
  recorder :: RecordingState
  chunks :: "nat list"
  mimeType :: string
  onstop :: bool
  downloads :: "(string \<times> nat list) list"

definition initial :: app where
  "initial =
     \<lparr>tutorialData = None, loadingState = IDLE, error = None, isPlaying = False,
      currentStepIndex = 0, audioContext = False, audioBuffers = [], audioSource = None,
      startTime = 0, pauseOffset = 0, isExporting = False, activeBufferIndex = 0,
      nextSource = 0, onended = [], sounding = {}, recorder = Inactive, chunks = [],
      mimeType = [], onstop = False, downloads = []\<rparr>"

text \<open>
  An operation that can throw gives an \<open>outcome\<close>: the exception that left it
  uncaught, if any, and the state it leaves behind.
\<close>

type_synonym outcome = "exn option \<times> app"

definition and_then :: "outcome \<Rightarrow> (app \<Rightarrow> outcome) \<Rightarrow> outcome" where
  "and_then r f = (case r of (Some e, s) \<Rightarrow> (Some e, s) | (None, s) \<Rightarrow> f s)"

section \<open>Timeline playback engine (App.tsx)\<close>

definition getAudioContext :: "app \<Rightarrow> app" where
  "getAudioContext s = s\<lparr>audioContext := True\<rparr>"

text \<open>
  \<^verbatim>\<open>
  const playSegment = (index: number, offset: number = 0) => {
    const ctx = getAudioContext();
    if (index >= audioBuffersRef.current.length) {
      setIsPlaying(false);
      activeBufferIndexRef.current = 0;
      setCurrentStepIndex(0);
      pauseOffsetRef.current = 0;
      return;
    }
    if (ctx.state === 'suspended') { ctx.resume(); }
    const source = ctx.createBufferSource();
    source.buffer = audioBuffersRef.current[index];
    source.connect(ctx.destination);
    source.start(0, offset);
    startTimeRef.current = ctx.currentTime - offset;
    audioSourceRef.current = source;
    activeBufferIndexRef.current = index;
    setCurrentStepIndex(index);
    setIsPlaying(true);
    source.onended = () => {
      if (audioSourceRef.current === source) { playSegment(index + 1, 0); }
    };
  };\<close>
  \<^verbatim>\<open>source.start(0, offset)\<close> throws \<^verbatim>\<open>RangeError\<close> for a negative offset (Web Audio), before
  any ref is written. Resuming a suspended context writes nothing the component reads.
\<close>

definition playSegment :: "app \<Rightarrow> nat \<Rightarrow> real \<Rightarrow> real \<Rightarrow> outcome" where
  "playSegment s0 index offset now =
     (let s = getAudioContext s0 in
      if index \<ge> length (audioBuffers s) then
        (None, s\<lparr>isPlaying := False, activeBufferIndex := 0, currentStepIndex := 0,
                 pauseOffset := 0\<rparr>)
      else if offset < 0 then (Some RangeError, s)
      else
        (let source = nextSource s in
         (None, s\<lparr>nextSource := Suc source,
                  sounding := insert source (sounding s),
                  startTime := now - offset,
                  audioSource := Some source,
                  activeBufferIndex := index,
                  currentStepIndex := index,
                  isPlaying := True,
                  onended := (source, index) # onended s\<rparr>)))"

text \<open>
  The \<^verbatim>\<open>ended\<close> event of node \<open>source\<close>, dispatched by the platform as a task of its own
  when the node has played to its end or has been stopped: the node no longer sounds,
  and its \<^verbatim>\<open>onended\<close> handler runs, if it has one.
\<close>

definition source_ended :: "app \<Rightarrow> nat \<Rightarrow> real \<Rightarrow> outcome" where
  "source_ended s0 source now =
     (let s = s0\<lparr>sounding := sounding s0 - {source}\<rparr> in
      case map_of (onended s) source of
        None \<Rightarrow> (None, s)
      | Some index \<Rightarrow>
          (if audioSource s = Some source then playSegment s (index + 1) 0 now
           else (None, s)))"

text \<open>
  \<^verbatim>\<open>
  const playAudio = () => {
    playSegment(activeBufferIndexRef.current, pauseOffsetRef.current);
  };\<close>
\<close>

definition playAudio :: "app \<Rightarrow> real \<Rightarrow> outcome" where
  "playAudio s now = playSegment s (activeBufferIndex s) (pauseOffset s) now"

text \<open>
  \<^verbatim>\<open>
  const pauseAudio = () => {
    const ctx = audioContextRef.current;
    if (audioSourceRef.current && ctx) {
      try { audioSourceRef.current.stop(); } catch (e) {}
      pauseOffsetRef.current = ctx.currentTime - startTimeRef.current;
      if (pauseOffsetRef.current >
          (audioBuffersRef.current[activeBufferIndexRef.current]?.duration || 0)) {
          pauseOffsetRef.current = 0;
          activeBufferIndexRef.current++;
      }
      audioSourceRef.current = null;
      setIsPlaying(false);
    }
  };\<close>
  \<open>buffer_duration_or_0\<close> is \<^verbatim>\<open>audioBuffersRef.current[i]?.duration || 0\<close>: an index out of
  range reads \<^verbatim>\<open>undefined\<close>, and the duration is 0 then.
\<close>

definition buffer_duration_or_0 :: "audio_buffer list \<Rightarrow> nat \<Rightarrow> real" where
  "buffer_duration_or_0 bs i = (if i < length bs then duration (bs ! i) else 0)"

definition pauseAudio :: "app \<Rightarrow> real \<Rightarrow> app" where
  "pauseAudio s now =
     (case audioSource s of
        None \<Rightarrow> s
      | Some source \<Rightarrow>
          (if \<not> audioContext s then s
           else
             (let s1 = s\<lparr>sounding := sounding s - {source}\<rparr>;
                  s2 = s1\<lparr>pauseOffset := now - startTime s1\<rparr>;
                  s3 = (if pauseOffset s2
                            > buffer_duration_or_0 (audioBuffers s2) (activeBufferIndex s2)
                        then s2\<lparr>pauseOffset := 0,
                                activeBufferIndex := Suc (activeBufferIndex s2)\<rparr>
                        else s2)
              in s3\<lparr>audioSource := None, isPlaying := False\<rparr>)))"

text \<open>
  \<^verbatim>\<open>
  const stopAudio = () => {
    if (audioSourceRef.current) {
      const src = audioSourceRef.current;
      audioSourceRef.current = null;
      try { src.stop(); } catch(e) {}
      src.disconnect();
    }
    setIsPlaying(false);
    activeBufferIndexRef.current = 0;
    setCurrentStepIndex(0);
    pauseOffsetRef.current = 0;
  };\<close>
\<close>

definition stopAudio :: "app \<Rightarrow> app" where
  "stopAudio s =
     (let s1 = (case audioSource s of
                  None \<Rightarrow> s
                | Some src \<Rightarrow> s\<lparr>audioSource := None, sounding := sounding s - {src}\<rparr>)
      in s1\<lparr>isPlaying := False, activeBufferIndex := 0, currentStepIndex := 0,
             pauseOffset := 0\<rparr>)"

text \<open>
  \<^verbatim>\<open>
  const handleTogglePlay = () => { if (isPlaying) { pauseAudio(); } else { playAudio(); } };
  const handleReplay = () => { stopAudio(); playAudio(); };
  const handleDeepDive = async (snippet) => {
    if (!tutorialData) return;
    pauseAudio();
    ... (the explanation request and its panel)
  };\<close>
\<close>

definition handleTogglePlay :: "app \<Rightarrow> real \<Rightarrow> outcome" where
  "handleTogglePlay s now = (if isPlaying s then (None, pauseAudio s now) else playAudio s now)"

definition handleReplay :: "app \<Rightarrow> real \<Rightarrow> outcome" where
  "handleReplay s now = playAudio (stopAudio s) now"

definition handleDeepDive :: "app \<Rightarrow> real \<Rightarrow> app" where
  "handleDeepDive s now = (if tutorialData s = None then s else pauseAudio s now)"

section \<open>Submission (handleSubmit in App.tsx)\<close>

text \<open>
  \<^verbatim>\<open>
  const handleSubmit = async (e: React.FormEvent) => {
    e.preventDefault();
    if (!query.trim()) return;
    stopAudio();
    setLoadingState(LoadingState.GENERATING_CONTENT);
    setError(null);
    setTutorialData(null);
    audioBuffersRef.current = [];
    setCurrentStepIndex(0);
    activeBufferIndexRef.current = 0;
    pauseOffsetRef.current = 0;
    setDeepDiveContent(null);
    try {
      const data = await generateTutorialContent(query);
      setTutorialData(data);
      setLoadingState(LoadingState.GENERATING_AUDIO);
      const audioBase64s = await generateAudioSegments(data);
      const ctx = getAudioContext();
      const buffers = await Promise.all(audioBase64s.map(...));
      audioBuffersRef.current = buffers;
      setLoadingState(LoadingState.READY);
      playAudio();
    } catch (err: any) {
      console.error(err);
      setError(err.message || "An unexpected error occurred.");
      setLoadingState(LoadingState.ERROR);
    }
  };\<close>
  The function suspends at each \<^verbatim>\<open>await\<close>; the stretches between them are
  \<open>submit_begin\<close>, \<open>submit_content\<close> and \<open>submit_audio\<close>, and \<open>submit_catch\<close> is the handler
  of the \<^verbatim>\<open>try\<close>. The content generator is an external collaborator: a function from
  the query to the document or to the error it throws. \<open>error\<close> holds the exception
  whose message is shown.
\<close>

definition blank :: "string \<Rightarrow> bool" where
  "blank query = (\<forall>c \<in> set query. (of_char c :: nat) \<in> {9, 10, 11, 12, 13, 32, 160})"

definition submit_begin :: "app \<Rightarrow> app" where
  "submit_begin s =
     (stopAudio s)\<lparr>loadingState := GENERATING_CONTENT, error := None, tutorialData := None,
                   audioBuffers := [], currentStepIndex := 0, activeBufferIndex := 0,
                   pauseOffset := 0\<rparr>"

definition submit_content :: "TutorialData \<Rightarrow> app \<Rightarrow> app" where
  "submit_content d s = s\<lparr>tutorialData := Some d, loadingState := GENERATING_AUDIO\<rparr>"

definition submit_catch :: "exn \<Rightarrow> app \<Rightarrow> app" where
  "submit_catch e s = s\<lparr>error := Some e, loadingState := ERROR\<rparr>"

definition submit_audio :: "string option list \<Rightarrow> real \<Rightarrow> app \<Rightarrow> app" where
  "submit_audio audioBase64s now s =
     (let s1 = getAudioContext s in
      case promise_all (map decodeSegment audioBase64s) of
        Inl e \<Rightarrow> submit_catch e s1
      | Inr buffers \<Rightarrow>
          (case playAudio (s1\<lparr>audioBuffers := buffers, loadingState := READY\<rparr>) now of
             (Some e, s2) \<Rightarrow> submit_catch e s2
           | (None, s2) \<Rightarrow> s2))"

definition handleSubmit ::
  "(string \<Rightarrow> exn + TutorialData) \<Rightarrow> synthesizer \<Rightarrow> string \<Rightarrow> real \<Rightarrow> app \<Rightarrow> app" where
  "handleSubmit generateTutorialContent tts query now s =
     (if blank query then s
      else
        (let s1 = submit_begin s in
         case generateTutorialContent query of
           Inl e \<Rightarrow> submit_catch e s1
         | Inr d \<Rightarrow> submit_audio (generateAudioSegments tts d) now (submit_content d s1)))"

section \<open>Capture and export (handleExportVideo in App.tsx)\<close>

text \<open>
  What the platform and \<^verbatim>\<open>html2canvas\<close> do during one export:
  \<^item> \<open>isTypeSupported\<close>: \<^verbatim>\<open>MediaRecorder.isTypeSupported\<close>;
  \<^item> \<open>html2canvas i\<close>: the snapshot of iteration \<open>i\<close> resolves (\<open>None\<close>) or rejects with an
    error;
  \<^item> \<open>recorderFails i\<close>: the recorder meets an error while iteration \<open>i\<close> waits for the
    render and the snapshot;
  \<^item> \<open>recorded\<close>: the size of the blob the recorder hands to \<^verbatim>\<open>ondataavailable\<close> when it
    stops.
\<close>

record export_env =
  isTypeSupported :: "string \<Rightarrow> bool"
  html2canvas :: "nat \<Rightarrow> exn option"
  recorderFails :: "nat \<Rightarrow> bool"
  recorded :: nat

text \<open>
  \<^verbatim>\<open>MediaRecorder.pause()\<close> and \<^verbatim>\<open>resume()\<close> throw \<^verbatim>\<open>InvalidStateError\<close> on an inactive
  recorder. The constructor throws \<^verbatim>\<open>NotSupportedError\<close> for a type that is not supported.
\<close>

definition recorder_pause :: "RecordingState \<Rightarrow> exn + RecordingState" where
  "recorder_pause st = (if st = Inactive then Inl InvalidStateError else Inr Paused)"

definition recorder_resume :: "RecordingState \<Rightarrow> exn + RecordingState" where
  "recorder_resume st = (if st = Inactive then Inl InvalidStateError else Inr Recording)"

text \<open>
  \<^verbatim>\<open>recorder.ondataavailable = (e) => { if (e.data.size > 0) chunks.push(e.data); };\<close>
\<close>

definition ondataavailable :: "nat \<Rightarrow> app \<Rightarrow> app" where
  "ondataavailable data_size s =
     (if data_size > 0 then s\<lparr>chunks := chunks s @ [data_size]\<rparr> else s)"

text \<open>
  \<^verbatim>\<open>
  recorder.onstop = () => {
    const blob = new Blob(chunks, { type: mimeType });
    ... (an anchor with the blob's URL is clicked: the download)
    setIsExporting(false);
    setCurrentStepIndex(0);
    activeBufferIndexRef.current = 0;
  };\<close>
  The file name of the download is not modelled.
\<close>

definition onstop_handler :: "app \<Rightarrow> app" where
  "onstop_handler s =
     s\<lparr>downloads := downloads s @ [(mimeType s, chunks s)], isExporting := False,
       currentStepIndex := 0, activeBufferIndex := 0\<rparr>"

text \<open>The \<^verbatim>\<open>stop\<close> event of the recorder runs the handler only if one has been assigned.\<close>

definition stop_event :: "app \<Rightarrow> app" where
  "stop_event s = (if onstop s then onstop_handler s else s)"

text \<open>
  A recorder error: the platform makes the recorder inactive and fires \<^verbatim>\<open>error\<close> (the
  code sets no handler), \<^verbatim>\<open>dataavailable\<close> and \<^verbatim>\<open>stop\<close>.
\<close>

definition recorder_error :: "export_env \<Rightarrow> app \<Rightarrow> app" where
  "recorder_error p s = stop_event (ondataavailable (recorded p) (s\<lparr>recorder := Inactive\<rparr>))"

text \<open>
  The main element that \<^verbatim>\<open>exportContainerRef\<close> points to is rendered exactly when
  \<^verbatim>\<open>tutorialData && loadingState === LoadingState.READY\<close>.
\<close>

definition exportContainer :: "app \<Rightarrow> bool" where
  "exportContainer s = (tutorialData s \<noteq> None \<and> loadingState s = READY)"

text \<open>
  From the guard to \<^verbatim>\<open>recorder.start()\<close>:
  \<^verbatim>\<open>
    stopAudio();
    setIsExporting(true);
    const ctx = getAudioContext();
    ... (destination node, canvas, streams)
    let mimeType = 'video/webm';
    if (MediaRecorder.isTypeSupported('video/mp4')) { mimeType = 'video/mp4'; }
    else if (MediaRecorder.isTypeSupported('video/webm;codecs=h264')) {
      mimeType = 'video/webm;codecs=h264';
    }
    const recorder = new MediaRecorder(combinedStream, { mimeType, ... });
    const chunks: Blob[] = [];
    recorder.ondataavailable = ...;
    recorder.start();\<close>
\<close>

definition negotiate :: "export_env \<Rightarrow> string" where
  "negotiate p =
     (if isTypeSupported p ''video/mp4'' then ''video/mp4''
      else if isTypeSupported p ''video/webm;codecs=h264'' then ''video/webm;codecs=h264''
      else ''video/webm'')"

definition export_begin :: "export_env \<Rightarrow> app \<Rightarrow> outcome" where
  "export_begin p s =
     (let s1 = getAudioContext ((stopAudio s)\<lparr>isExporting := True\<rparr>) in
      if \<not> isTypeSupported p (negotiate p) then (Some NotSupportedError, s1)
      else (None, s1\<lparr>mimeType := negotiate p, chunks := [], onstop := False,
                     recorder := Recording\<rparr>))"

text \<open>
  One iteration of the loop:
  \<^verbatim>\<open>
    setCurrentStepIndex(i);
    recorder.pause();
    await new Promise(r => setTimeout(r, 500));
    const canvasShot = await html2canvas(exportContainerRef.current, {...});
    if (videoCtx) { videoCtx.drawImage(canvasShot, ...); }
    recorder.resume();
    if (i < audioBuffersRef.current.length) {
      ... (the buffer is played into the recording stream and the snapshot is redrawn
           every 33 ms until the buffer's duration has passed)
    } else {
      await new Promise(r => setTimeout(r, 2000));
    }\<close>
  The last statement only waits: it changes nothing of the state.
\<close>

definition export_segment :: "export_env \<Rightarrow> nat \<Rightarrow> app \<Rightarrow> outcome" where
  "export_segment p i s =
     (let s1 = s\<lparr>currentStepIndex := i\<rparr> in
      case recorder_pause (recorder s1) of
        Inl e \<Rightarrow> (Some e, s1)
      | Inr st \<Rightarrow>
          (let s2 = s1\<lparr>recorder := st\<rparr>;
               s3 = (if recorderFails p i then recorder_error p s2 else s2)
           in case html2canvas p i of
                Some e \<Rightarrow> (Some e, s3)
              | None \<Rightarrow>
                  (case recorder_resume (recorder s3) of
                     Inl e \<Rightarrow> (Some e, s3)
                   | Inr st' \<Rightarrow> (None, s3\<lparr>recorder := st'\<rparr>))))"

text \<open>\<^verbatim>\<open>for (let i = 0; i < totalSteps; i++) { ... }\<close>: an exception leaves the loop.\<close>

function export_loop :: "export_env \<Rightarrow> nat \<Rightarrow> nat \<Rightarrow> app \<Rightarrow> outcome" where
  "export_loop p i totalSteps s =
     (if i < totalSteps then
        (case export_segment p i s of
           (Some e, s') \<Rightarrow> (Some e, s')
         | (None, s') \<Rightarrow> export_loop p (Suc i) totalSteps s')
      else (None, s))"
  by pat_completeness auto
termination
  by (relation "measure (\<lambda>(p, i, totalSteps, s). totalSteps - i)") auto

text \<open>
  After the loop:
  \<^verbatim>\<open>
    recorder.stop();
    recorder.onstop = () => {...};\<close>
  \<^verbatim>\<open>stop()\<close> makes the recorder inactive and queues the \<^verbatim>\<open>dataavailable\<close> and \<^verbatim>\<open>stop\<close>
  events, which fire after the handler has been assigned; on a recorder that is already
  inactive it does nothing, and no event follows.
\<close>

definition export_finish :: "export_env \<Rightarrow> app \<Rightarrow> outcome" where
  "export_finish p s =
     (if recorder s = Inactive then (None, s\<lparr>onstop := True\<rparr>)
      else (None, stop_event (ondataavailable (recorded p)
                    (s\<lparr>recorder := Inactive, onstop := True\<rparr>))))"

text \<open>
  \<^verbatim>\<open>
  const handleExportVideo = async () => {
    if (!exportContainerRef.current || isExporting || !tutorialData) return;
    ...
    const totalSteps = tutorialData.steps.length + 1;
    ...
  };\<close>
  No statement of the function is inside a \<^verbatim>\<open>try\<close>: an exception rejects the promise the
  function returned, and nothing else of the function runs.
\<close>

definition handleExportVideo :: "export_env \<Rightarrow> app \<Rightarrow> outcome" where
  "handleExportVideo p s =
     (case tutorialData s of
        None \<Rightarrow> (None, s)
      | Some d \<Rightarrow>
          (if \<not> exportContainer s \<or> isExporting s then (None, s)
           else
             and_then (export_begin p s)
               (\<lambda>s1. and_then (export_loop p 0 (length (steps d) + 1) s1) (export_finish p))))"

section \<open>Events\<close>

text \<open>
  JavaScript runs one task at a time, to completion: a user action, the \<^verbatim>\<open>ended\<close> event
  of an audio node, or the continuation of an \<^verbatim>\<open>async\<close> function after an \<^verbatim>\<open>await\<close>.
  An interleaving is a list of such tasks. An exception that a task leaves uncaught ends
  that task; the state it had written stays. The stretches of \<^verbatim>\<open>handleSubmit\<close> and of
  \<^verbatim>\<open>handleExportVideo\<close> between their \<^verbatim>\<open>await\<close>s are tasks of their own, so other tasks can
  run between the phases of a submission and between the start, the iterations and the
  end of an export. \<open>Unmount\<close> is the clean-up of the component's effect, which calls
  \<^verbatim>\<open>stopAudio\<close>.
\<close>

datatype event =
    TogglePlay real
  | Replay real
  | DeepDive real
  | SubmitBegin
  | SubmitContent TutorialData
  | SubmitAudio "string option list" real
  | SubmitCatch exn
  | SourceEnded nat real
  | ExportBegin export_env
  | ExportSegment export_env nat
  | ExportFinish export_env
  | Unmount

fun step :: "app \<Rightarrow> event \<Rightarrow> app" where
  "step s (TogglePlay now) = snd (handleTogglePlay s now)"
| "step s (Replay now) = snd (handleReplay s now)"
| "step s (DeepDive now) = handleDeepDive s now"
| "step s SubmitBegin = submit_begin s"
| "step s (SubmitContent d) = submit_content d s"
| "step s (SubmitAudio audioBase64s now) = submit_audio audioBase64s now s"
| "step s (SubmitCatch e) = submit_catch e s"
| "step s (SourceEnded source now) = snd (source_ended s source now)"
| "step s (ExportBegin p) =
     (if tutorialData s = None \<or> \<not> exportContainer s \<or> isExporting s then s
      else snd (export_begin p s))"
| "step s (ExportSegment p i) = snd (export_segment p i s)"
| "step s (ExportFinish p) = snd (export_finish p s)"
| "step s Unmount = stopAudio s"

definition run :: "app \<Rightarrow> event list \<Rightarrow> app" where
  "run s evs = foldl step s evs"

section \<open>Values used in statements and examples\<close>

text \<open>
  The buffer that \<^verbatim>\<open>ctx.createBuffer(1, 2 * 24000, 24000)\<close> returns: two seconds of
  silence at 24000 Hz.
\<close>

definition silent_segment :: audio_buffer where
  "silent_segment = \<lparr>sampleRate = 24000, channelData = replicate 48000 0\<rparr>"

text \<open>A tutorial document with two steps, hence three segments.\<close>

definition example_doc :: TutorialData where
  "example_doc =
     \<lparr>title = ''Center a div'', language = ''css'', code = ''a b'', overview = ''o'',
      steps = [\<lparr>lineCode = ''a'', explanation = ''e1''\<rparr>,
               \<lparr>lineCode = ''b'', explanation = ''e2''\<rparr>]\<rparr>"

text \<open>
  The state that the spec calls Ended, reached from \<open>s\<close>: not playing, active index 0,
  shown step 0, offset 0; everything else as in \<open>s\<close>.
\<close>

definition ended :: "app \<Rightarrow> app" where
  "ended s =
     s\<lparr>isPlaying := False, activeBufferIndex := 0, currentStepIndex := 0, pauseOffset := 0\<rparr>"

text \<open>
  A session: the document is submitted, every synthesis fails (three silent segments of
  two seconds), and playback starts by itself at time 10. In \<open>example_last_segment\<close> the
  first two segments have played to their ends, at times 12 and 14.
\<close>

definition example_playing :: app where
  "example_playing =
     run initial [SubmitBegin, SubmitContent example_doc, SubmitAudio [None, None, None] 10]"

definition example_last_segment :: app where
  "example_last_segment =
     run initial [SubmitBegin, SubmitContent example_doc, SubmitAudio [None, None, None] 10,
                  SourceEnded 0 12, SourceEnded 1 14]"

section \<open>Natural completion\<close>

text \<open>
  A segment completes naturally when the node that \<^verbatim>\<open>audioSourceRef\<close> holds plays to its
  end: the platform dispatches the \<^verbatim>\<open>ended\<close> event of that node. Only a node that still
  sounds can end. \<open>completions s ts\<close> lets one segment after the other complete, at the
  times \<open>ts\<close>.
\<close>

definition natural_completion :: "app \<Rightarrow> real \<Rightarrow> app" where
  "natural_completion s now =
     (case audioSource s of
        None \<Rightarrow> s
      | Some source \<Rightarrow>
          (if source \<in> sounding s then snd (source_ended s source now) else s))"

definition completions :: "app \<Rightarrow> real list \<Rightarrow> app" where
  "completions s ts = foldl natural_completion s ts"

text \<open>
  For the proofs: segment \<open>i\<close> is playing, through a live node that sounds and whose
  handler captured \<open>i\<close>.
\<close>

definition playing_at :: "app \<Rightarrow> nat \<Rightarrow> bool" where
  "playing_at s i =
     (\<exists>source. audioSource s = Some source \<and> source \<in> sounding s
        \<and> map_of (onended s) source = Some i
        \<and> activeBufferIndex s = i \<and> currentStepIndex s = i \<and> isPlaying s
        \<and> i < length (audioBuffers s))"

section \<open>Invariants of the live source\<close>

text \<open>
  For the proofs about interleavings. \<open>live_ok s\<close>: the node that \<^verbatim>\<open>audioSourceRef\<close> holds
  has been created, and so has the audio context. \<open>advance s s'\<close>: what any number of
  tasks can do to the live reference on the way from \<open>s\<close> to \<open>s'\<close>: keep it, clear it,
  or set it to a node created on the way. \<open>same_audio s s'\<close>: nothing of it changed.
\<close>

definition live_ok :: "app \<Rightarrow> bool" where
  "live_ok s = (\<forall>x. audioSource s = Some x \<longrightarrow> x < nextSource s \<and> audioContext s)"

definition advance :: "app \<Rightarrow> app \<Rightarrow> bool" where
  "advance s s' =
     (nextSource s \<le> nextSource s' \<and> (audioContext s \<longrightarrow> audioContext s')
      \<and> (audioSource s' = audioSource s \<or> audioSource s' = None
          \<or> (\<exists>x. audioSource s' = Some x \<and> nextSource s \<le> x \<and> x < nextSource s'
                \<and> audioContext s')))"

definition same_audio :: "app \<Rightarrow> app \<Rightarrow> bool" where
  "same_audio s s' =
     (audioSource s' = audioSource s \<and> nextSource s' = nextSource s
      \<and> audioContext s' = audioContext s)"

section \<open>Export: faults and an example environment\<close>

text \<open>
  Iteration \<open>j\<close> of an export meets no fault: its snapshot resolves and the recorder
  meets no error while the iteration waits for it.
\<close>

definition export_ok :: "export_env \<Rightarrow> nat \<Rightarrow> bool" where
  "export_ok p j = (html2canvas p j = None \<and> \<not> recorderFails p j)"

text \<open>
  A browser that records only \<^verbatim>\<open>video/webm\<close>, a snapshot that fails at segment 1, and a
  recorder that delivers 4096 bytes when it stops.
\<close>

definition example_export_env :: export_env where
  "example_export_env =
     \<lparr>isTypeSupported = (\<lambda>t. t = ''video/webm''),
      html2canvas = (\<lambda>i. if i = Suc 0 then Some (ExternalError ''snapshot failed'') else None),
      recorderFails = (\<lambda>i. False),
      recorded = 4096\<rparr>"

section \<open>Decoder: lemmas\<close>

lemma fill_take_drop:
  "k \<le> length a \<Longrightarrow> fill k f a = map f [0..<k] @ drop k a"
proof (induction k)
  case 0
  then show ?case by (simp add: fill_def)
next
  case (Suc k)
  then have "fill (Suc k) f a = (map f [0..<k] @ drop k a)[k := f k]"
    by (simp add: fill_def)
  also have "\<dots> = map f [0..<k] @ (drop k a)[0 := f k]"
    by (simp add: list_update_append)
  also have "(drop k a)[0 := f k] = f k # drop (Suc k) a"
    using Suc.prems by (cases "drop k a") (auto simp: drop_Suc drop_tl)
  finally show ?case by simp
qed

lemma fill_eq_map: "length a = n \<Longrightarrow> fill n f a = map f [0..<n]"
  using fill_take_drop [of n a f] by simp

lemma map_index: "map (\<lambda>i. g (xs ! i)) [0..<length xs] = map g xs"
  by (rule nth_equalityI) simp_all

lemma decode_eq:
  "decode base64 = map_sum id (map of_nat) (atob base64)"
  by (cases "atob base64") (simp_all add: decode_def fill_eq_map map_index Let_def)

lemma length_int16_pairs: "length (int16_pairs bs) = length bs div 2"
  by (induction bs rule: int16_pairs.induct) simp_all

lemma nth_int16_pairs:
  "i < length bs div 2 \<Longrightarrow>
     int16_pairs bs ! i = int16_le (bs ! (2 * i)) (bs ! (2 * i + 1))"
proof (induction bs arbitrary: i rule: int16_pairs.induct)
  case (1 lo hi bs)
  then show ?case by (cases i) simp_all
qed simp_all

lemma pcm_sample_range: "- 1 \<le> pcm_sample w \<and> pcm_sample w < 1"
proof -
  have "- (2 ^ 15) \<le> sint w" "sint w < 2 ^ 15"
    using sint_ge [of w] sint_lt [of w] by simp_all
  then have "real_of_int (- (2 ^ 15)) \<le> real_of_int (sint w)"
    "real_of_int (sint w) < real_of_int (2 ^ 15)"
    by (simp_all only: of_int_le_iff of_int_less_iff)
  then show ?thesis unfolding pcm_sample_def by (simp del: of_int_sint)
qed

lemma sint_word16_of_nat:
  assumes "v < 65536"
  shows "sint (word_of_nat v :: 16 word) = (if v < 32768 then int v else int v - 65536)"
proof -
  have e: "sint (word_of_nat v :: 16 word) = (int v + 32768) mod 65536 - 32768"
    using int_word_sint [of "int v", where 'a = 16] by simp
  show ?thesis
  proof (cases "v < 32768")
    case True
    then have "(int v + 32768) mod 65536 = int v + 32768"
      by (intro mod_pos_pos_trivial) simp_all
    with True e show ?thesis by simp
  next
    case False
    have "(int v + 32768) mod 65536 = (int v - 32768) mod 65536"
      using mod_add_self2 [of "int v - 32768" 65536] by (simp add: algebra_simps)
    also have "\<dots> = int v - 32768" using False assms
      by (intro mod_pos_pos_trivial) simp_all
    finally show ?thesis using False e by simp
  qed
qed

lemma unat_byte_lt: "unat (b :: 8 word) < 256"
  using unsigned_less [of b, where 'a = nat] by simp

lemma sint_int16_le: "sint (int16_le lo hi) = signed16 (unat lo) (unat hi)"
proof -
  have lo: "unat lo < 256" and hi: "unat hi < 256"
    by (rule unat_byte_lt)+
  define v where "v = unat lo + 256 * unat hi"
  have v: "v < 65536" using lo hi by (simp add: v_def)
  show ?thesis
    using sint_word16_of_nat [OF v] by (simp add: int16_le_def signed16_def v_def Let_def)
qed

lemma base64_value_lt: "base64_value c = Some v \<Longrightarrow> v < 64"
  by (auto simp: base64_value_def Let_def split: if_splits)

lemma sextet_arith:
  "a < 64 \<Longrightarrow> b < 64 \<Longrightarrow> a * 4 + b div 16 < (256::nat)"
  "b < 64 \<Longrightarrow> c < 64 \<Longrightarrow> b mod 16 * 16 + c div 4 < (256::nat)"
  "c < 64 \<Longrightarrow> d < 64 \<Longrightarrow> c mod 4 * 64 + d < (256::nat)"
  by simp_all

lemma sextets_to_bytes_lt:
  "\<forall>v \<in> set vs. v < 64 \<Longrightarrow> \<forall>b \<in> set (sextets_to_bytes vs). b < 256"
  by (induction vs rule: sextets_to_bytes.induct) (auto simp: sextet_arith)

lemma those_Some_set: "those xs = Some ys \<Longrightarrow> set ys = {y. Some y \<in> set xs}"
  by (induction xs arbitrary: ys) (auto split: option.splits)

lemma atob_bytes_lt:
  assumes "atob base64 = Inr binaryString"
  shows "\<forall>b \<in> set binaryString. b < 256"
proof -
  from assms obtain d vs where vs: "those (map base64_value d) = Some vs"
    and bin: "binaryString = sextets_to_bytes vs"
    by (auto simp: atob_def Let_def split: if_splits option.splits)
  have "\<forall>v \<in> set vs. v < 64"
    using those_Some_set [OF vs] base64_value_lt by auto
  then show ?thesis unfolding bin by (rule sextets_to_bytes_lt)
qed

lemma createAudioBufferFromPCM_even:
  assumes "atob base64 = Inr binaryString" and "length binaryString = 2 * k" and "0 < k"
  shows "createAudioBufferFromPCM base64 rate =
           Inr \<lparr>sampleRate = rate,
                channelData =
                  map (\<lambda>i. pcm_sample (int16_pairs (map of_nat binaryString) ! i)) [0..<k]\<rparr>"
  using assms
  by (simp add: createAudioBufferFromPCM_def decode_eq Int16Array_def length_int16_pairs
      createBuffer_def fill_eq_map)

lemma atob_examples:
  "atob [] = Inr []"
  "atob ''AA=='' = Inr [0]"
  "atob ''AQCA/w=='' = Inr [1, 0, 128, 255]"
  "atob ''!!!!'' = Inl InvalidCharacterError"
  by (simp_all add: atob_def strip_padding_def ascii_whitespace_def base64_value_def)

section \<open>Decoder: the claims\<close>

text \<open>
  C5, as amended. For every string that \<^verbatim>\<open>atob\<close> accepts and that encodes \<open>2k\<close> bytes with
  \<open>k \<ge> 1\<close>, the decoder returns a buffer at 24000 Hz with exactly \<open>k\<close> samples; sample \<open>i\<close>
  is the signed 16-bit little-endian value of bytes \<open>2i\<close> and \<open>2i+1\<close> divided by 32768, and
  lies in \<open>[-1, 1]\<close>.
\<close>

theorem createAudioBufferFromPCM_samples:
  assumes "atob base64 = Inr binaryString"
    and "length binaryString = 2 * k"
    and "0 < k"
  shows "\<exists>buffer. createAudioBufferFromPCM base64 24000 = Inr buffer
           \<and> sampleRate buffer = 24000
           \<and> length (channelData buffer) = k
           \<and> (\<forall>i<k. channelData buffer ! i
                        = real_of_int (signed16 (binaryString ! (2 * i))
                                                (binaryString ! (2 * i + 1))) / 32768
                     \<and> - 1 \<le> channelData buffer ! i \<and> channelData buffer ! i \<le> 1)"
proof -
  let ?bytes = "map of_nat binaryString :: 8 word list"
  let ?buffer = "\<lparr>sampleRate = 24000,
                  channelData = map (\<lambda>i. pcm_sample (int16_pairs ?bytes ! i)) [0..<k]\<rparr>"
  have run: "createAudioBufferFromPCM base64 24000 = Inr ?buffer"
    by (rule createAudioBufferFromPCM_even [OF assms])
  have sample: "channelData ?buffer ! i
        = real_of_int (signed16 (binaryString ! (2 * i)) (binaryString ! (2 * i + 1))) / 32768"
    if "i < k" for i
  proof -
    have lt: "binaryString ! (2 * i) < 256" "binaryString ! (2 * i + 1) < 256"
      using atob_bytes_lt [OF assms(1)] assms(2) that by simp_all
    have "int16_pairs ?bytes ! i = int16_le (?bytes ! (2 * i)) (?bytes ! (2 * i + 1))"
      using that assms(2) by (intro nth_int16_pairs) simp
    also have "\<dots> = int16_le (of_nat (binaryString ! (2 * i)))
                               (of_nat (binaryString ! (2 * i + 1)))"
      using that assms(2) by simp
    finally have "sint (int16_pairs ?bytes ! i)
        = signed16 (binaryString ! (2 * i)) (binaryString ! (2 * i + 1))"
      using lt by (simp add: sint_int16_le unat_of_nat)
    then show ?thesis using that by (simp add: pcm_sample_def del: of_int_sint)
  qed
  have range: "- 1 \<le> channelData ?buffer ! i \<and> channelData ?buffer ! i \<le> 1"
    if "i < k" for i
    using that pcm_sample_range [of "int16_pairs ?bytes ! i"] by simp
  show ?thesis
    using run sample range by (intro exI [of _ ?buffer]) simp
qed

theorem createAudioBufferFromPCM_samples_witness:
  "atob ''AQCA/w=='' = Inr [1, 0, 128, 255]
   \<and> (\<exists>buffer. createAudioBufferFromPCM ''AQCA/w=='' 24000 = Inr buffer
         \<and> sampleRate buffer = 24000
         \<and> length (channelData buffer) = 2
         \<and> channelData buffer ! 0 = 1 / 32768
         \<and> channelData buffer ! 1 = - 1 / 256)"
proof -
  have a: "atob ''AQCA/w=='' = Inr [1, 0, 128, 255]"
    by (simp add: atob_def strip_padding_def ascii_whitespace_def base64_value_def)
  obtain buffer where b: "createAudioBufferFromPCM ''AQCA/w=='' 24000 = Inr buffer"
    "sampleRate buffer = 24000" "length (channelData buffer) = 2"
    and s: "\<forall>i<2. channelData buffer ! i
              = real_of_int (signed16 ([1, 0, 128, 255] ! (2 * i))
                                      ([1, 0, 128, 255] ! (2 * i + 1))) / 32768
            \<and> - 1 \<le> channelData buffer ! i \<and> channelData buffer ! i \<le> 1"
    using createAudioBufferFromPCM_samples [OF a, of 2] by auto
  have "channelData buffer ! 0 = 1 / 32768"
    using s [rule_format, of 0] by (simp add: signed16_def)
  moreover have "channelData buffer ! 1 = - 1 / 256"
    using s [rule_format, of 1] by (simp add: signed16_def)
  ultimately show ?thesis using a b by blast
qed

text \<open>
  C5 as stated fails for \<open>k = 0\<close>: the empty string is valid base64 for zero bytes, and
  the decoder throws, since \<^verbatim>\<open>createBuffer\<close> refuses a buffer of zero frames. The same
  holds for a payload of white space only, which \<^verbatim>\<open>atob\<close> accepts and which passes the
  \<^verbatim>\<open>if (b64)\<close> test of \<^verbatim>\<open>handleSubmit\<close>.
\<close>

theorem createAudioBufferFromPCM_empty_payload:
  "atob [] = Inr [] \<and> length ([] :: nat list) = 2 * 0
   \<and> createAudioBufferFromPCM [] 24000 = Inl NotSupportedError
   \<and> atob '' '' = Inr []
   \<and> createAudioBufferFromPCM '' '' 24000 = Inl NotSupportedError"
  by (simp add: atob_def strip_padding_def ascii_whitespace_def createAudioBufferFromPCM_def
      decode_def fill_def Int16Array_def createBuffer_def)

text \<open>
  C10. For every payload that decodes to an odd number of bytes,
  \<^verbatim>\<open>createAudioBufferFromPCM\<close> throws \<^verbatim>\<open>RangeError\<close> (the 16-bit view cannot be built); it
  returns a buffer only for a payload with an even number of bytes.
\<close>

theorem createAudioBufferFromPCM_odd_throws:
  "(atob base64 = Inr binaryString \<longrightarrow> odd (length binaryString)
      \<longrightarrow> createAudioBufferFromPCM base64 rate = Inl RangeError)
   \<and> (createAudioBufferFromPCM base64 rate = Inr buffer
      \<longrightarrow> (\<exists>bin. atob base64 = Inr bin \<and> even (length bin)))"
  by (cases "atob base64")
    (auto simp: createAudioBufferFromPCM_def decode_eq Int16Array_def split: sum.splits)

theorem createAudioBufferFromPCM_odd_throws_witness:
  "atob ''AA=='' = Inr [0] \<and> odd (length [0 :: nat])
   \<and> createAudioBufferFromPCM ''AA=='' 24000 = Inl RangeError"
proof -
  have a: "atob ''AA=='' = Inr [0]"
    by (simp add: atob_def strip_padding_def ascii_whitespace_def base64_value_def)
  show ?thesis
    using a createAudioBufferFromPCM_odd_throws [of "''AA==''" "[0]" 24000] by simp
qed

section \<open>Segment registry: lemmas and claims\<close>

lemma createBuffer_silence: "createBuffer 48000 24000 = Inr silent_segment"
  unfolding createBuffer_def silent_segment_def by simp

lemma decodeSegment_None: "decodeSegment None = Inr silent_segment"
  by (simp add: decodeSegment_def createBuffer_silence)

lemma duration_silent_segment: "duration silent_segment = 2"
  by (simp add: duration_def silent_segment_def)

lemma length_segments: "length (segments d) = length (steps d) + 1"
  by (simp add: segments_def)

lemma length_generateAudioSegments:
  "length (generateAudioSegments tts d) = length (steps d) + 1"
  by (simp add: generateAudioSegments_def length_segments)

lemma nth_generateAudioSegments:
  "k \<le> length (steps d) \<Longrightarrow>
     generateAudioSegments tts d ! k = generateSegment (tts k (segments d ! k))"
  by (simp add: generateAudioSegments_def length_segments del: upt_Suc)

lemma generateSegment_failure:
  "r = TtsThrows \<or> r = TtsAnswers None \<or> r = TtsAnswers (Some []) \<Longrightarrow> generateSegment r = None"
  by (auto simp: generateSegment_def)

lemma generateAudioSegments_failure:
  assumes "generateSegment r = None"
  shows "generateAudioSegments (tts(i := \<lambda>t. r)) d = (generateAudioSegments tts d)[i := None]"
proof (rule nth_equalityI)
  show "length (generateAudioSegments (tts(i := \<lambda>t. r)) d)
      = length ((generateAudioSegments tts d)[i := None])"
    by (simp add: length_generateAudioSegments)
next
  fix k assume "k < length (generateAudioSegments (tts(i := \<lambda>t. r)) d)"
  then have k: "k \<le> length (steps d)" by (simp add: length_generateAudioSegments)
  show "generateAudioSegments (tts(i := \<lambda>t. r)) d ! k = (generateAudioSegments tts d)[i := None] ! k"
    using k assms
    by (cases "k = i") (simp_all add: nth_generateAudioSegments length_generateAudioSegments)
qed

lemma promise_all_Inr:
  "promise_all rs = Inr bs \<Longrightarrow> rs = map Inr bs"
  by (induction rs arbitrary: bs rule: promise_all.induct) (auto split: sum.splits)

lemma promise_all_Inl:
  "i < length rs \<Longrightarrow> rs ! i = Inl e \<Longrightarrow> \<exists>e'. promise_all rs = Inl e'"
proof (induction rs arbitrary: i rule: promise_all.induct)
  case (3 x ps)
  then show ?case by (cases i) (auto split: sum.splits)
qed simp_all

lemma playSegment_audioBuffers:
  "playSegment s index offset now = (r, s') \<Longrightarrow> audioBuffers s' = audioBuffers s"
  by (auto simp: playSegment_def getAudioContext_def Let_def split: if_splits)

lemma submit_audio_buffers:
  "promise_all (map decodeSegment ps) = Inr buffers \<Longrightarrow>
     audioBuffers (submit_audio ps now s) = buffers"
  by (auto simp: submit_audio_def submit_catch_def playAudio_def getAudioContext_def Let_def
      split: prod.splits option.splits dest: playSegment_audioBuffers)


lemma decodeSegment_sampleRate: "decodeSegment p = Inr b \<Longrightarrow> sampleRate b = 24000"
  by (auto simp: decodeSegment_def createBuffer_def createAudioBufferFromPCM_def Let_def
      split: option.splits if_splits sum.splits)

text \<open>
  C4. A document with \<open>N - 1\<close> steps gives exactly \<open>N\<close> payloads, the overview's first
  and the steps' after it in document order. When the synthesis of segment \<open>i\<close> throws,
  answers without a payload or answers with an empty one, only entry \<open>i\<close> of the batch
  changes: its payload is \<open>null\<close> and its buffer is two seconds of silence at 24000 Hz,
  the rate of every decoded buffer. Whenever the batch decodes, the engine holds
  \<open>N\<close> buffers, silence at \<open>i\<close> and the decoded payloads elsewhere, in order.
\<close>

theorem synthesis_failure_is_silence:
  assumes "i \<le> length (steps d)"
    and "r = TtsThrows \<or> r = TtsAnswers None \<or> r = TtsAnswers (Some [])"
  shows "length (generateAudioSegments tts d) = length (steps d) + 1
    \<and> generateAudioSegments tts d ! 0 = generateSegment (tts 0 (overview d))
    \<and> (\<forall>j<length (steps d).
          generateAudioSegments tts d ! Suc j
            = generateSegment (tts (Suc j) (explanation (steps d ! j))))
    \<and> generateAudioSegments (tts(i := \<lambda>t. r)) d = (generateAudioSegments tts d)[i := None]
    \<and> map decodeSegment ((generateAudioSegments tts d)[i := None])
         = (map decodeSegment (generateAudioSegments tts d))[i := Inr silent_segment]
    \<and> sampleRate silent_segment = 24000
    \<and> length (channelData silent_segment) = 2 * 24000
    \<and> set (channelData silent_segment) = {0}
    \<and> duration silent_segment = 2
    \<and> (\<forall>p b. decodeSegment p = Inr b \<longrightarrow> sampleRate b = 24000)
    \<and> (\<forall>buffers.
          promise_all (map decodeSegment (generateAudioSegments (tts(i := \<lambda>t. r)) d))
            = Inr buffers
          \<longrightarrow> audioBuffers (submit_audio (generateAudioSegments (tts(i := \<lambda>t. r)) d) now s)
                = buffers
            \<and> length buffers = length (steps d) + 1
            \<and> buffers ! i = silent_segment
            \<and> (\<forall>j\<le>length (steps d). j \<noteq> i
                  \<longrightarrow> decodeSegment (generateAudioSegments tts d ! j) = Inr (buffers ! j)))"
proof -
  let ?ps = "generateAudioSegments tts d"
  let ?ps' = "generateAudioSegments (tts(i := \<lambda>t. r)) d"
  have none: "generateSegment r = None"
    using assms(2) by (rule generateSegment_failure)
  have len: "length ?ps = length (steps d) + 1"
    by (rule length_generateAudioSegments)
  have first: "?ps ! 0 = generateSegment (tts 0 (overview d))"
    using nth_generateAudioSegments [of 0 d tts] by (simp add: segments_def)
  have later: "?ps ! Suc j = generateSegment (tts (Suc j) (explanation (steps d ! j)))"
    if "j < length (steps d)" for j
    using that nth_generateAudioSegments [of "Suc j" d tts] by (simp add: segments_def)
  have upd: "?ps' = ?ps[i := None]"
    using none by (rule generateAudioSegments_failure)
  have dec: "map decodeSegment (?ps[i := None]) = (map decodeSegment ?ps)[i := Inr silent_segment]"
    by (simp add: map_update decodeSegment_None)
  have batch: "audioBuffers (submit_audio ?ps' now s) = buffers
      \<and> length buffers = length (steps d) + 1
      \<and> buffers ! i = silent_segment
      \<and> (\<forall>j\<le>length (steps d). j \<noteq> i \<longrightarrow> decodeSegment (?ps ! j) = Inr (buffers ! j))"
    if all: "promise_all (map decodeSegment ?ps') = Inr buffers" for buffers
  proof -
    have eq: "(map decodeSegment ?ps)[i := Inr silent_segment] = map Inr buffers"
      using promise_all_Inr [OF all] by (simp add: upd dec)
    then have l: "length buffers = length (steps d) + 1"
      using len by (metis length_list_update length_map)
    have nth: "((map decodeSegment ?ps)[i := Inr silent_segment]) ! j = Inr (buffers ! j)"
      if "j \<le> length (steps d)" for j
      using that l by (simp add: eq)
    have "buffers ! i = silent_segment"
      using nth [OF assms(1)] assms(1) len by simp
    moreover have "decodeSegment (?ps ! j) = Inr (buffers ! j)"
      if "j \<le> length (steps d)" "j \<noteq> i" for j
      using nth [OF that(1)] that len by simp
    ultimately show ?thesis
      using submit_audio_buffers [OF all] l by simp
  qed
  have sil: "sampleRate silent_segment = 24000" "length (channelData silent_segment) = 2 * 24000"
    "set (channelData silent_segment) = {0}"
    by (simp_all add: silent_segment_def)
  show ?thesis
    using len first later upd dec sil duration_silent_segment decodeSegment_sampleRate batch
    by blast
qed


lemma example_doc_payloads:
  "generateAudioSegments (\<lambda>i t. TtsAnswers (Some ''AQCA/w=='')) example_doc
     = [Some ''AQCA/w=='', Some ''AQCA/w=='', Some ''AQCA/w=='']"
  by (simp add: generateAudioSegments_def segments_def example_doc_def generateSegment_def)

lemma decode_example_payload:
  "decodeSegment (Some ''AQCA/w=='')
     = Inr \<lparr>sampleRate = 24000, channelData = [1 / 32768, - 1 / 256]\<rparr>"
  by (simp add: decodeSegment_def createAudioBufferFromPCM_def decode_eq atob_examples
      Int16Array_def createBuffer_def fill_eq_map pcm_sample_def int16_le_def)

theorem synthesis_failure_is_silence_witness:
  "generateAudioSegments ((\<lambda>i t. TtsAnswers (Some ''AQCA/w=='')) (Suc 0 := \<lambda>t. TtsThrows)) example_doc
     = [Some ''AQCA/w=='', None, Some ''AQCA/w=='']
   \<and> promise_all (map decodeSegment
         (generateAudioSegments ((\<lambda>i t. TtsAnswers (Some ''AQCA/w=='')) (Suc 0 := \<lambda>t. TtsThrows))
            example_doc))
     = Inr [\<lparr>sampleRate = 24000, channelData = [1 / 32768, - 1 / 256]\<rparr>,
            silent_segment,
            \<lparr>sampleRate = 24000, channelData = [1 / 32768, - 1 / 256]\<rparr>]
   \<and> audioBuffers (submit_audio
         (generateAudioSegments ((\<lambda>i t. TtsAnswers (Some ''AQCA/w=='')) (Suc 0 := \<lambda>t. TtsThrows))
            example_doc) 0 initial)
     = [\<lparr>sampleRate = 24000, channelData = [1 / 32768, - 1 / 256]\<rparr>,
        silent_segment,
        \<lparr>sampleRate = 24000, channelData = [1 / 32768, - 1 / 256]\<rparr>]
   \<and> duration silent_segment = 2"
proof -
  let ?tts = "\<lambda>(i::nat) (t::string). TtsAnswers (Some ''AQCA/w=='')"
  let ?b = "\<lparr>sampleRate = 24000, channelData = [1 / 32768, - 1 / 256]\<rparr>"
  have i: "Suc 0 \<le> length (steps example_doc)" by (simp add: example_doc_def)
  have r: "TtsThrows = TtsThrows \<or> TtsThrows = TtsAnswers None \<or> TtsThrows = TtsAnswers (Some [])"
    by simp
  note inst = synthesis_failure_is_silence [OF i r, of ?tts 0 initial]
  have ps: "generateAudioSegments (?tts(Suc 0 := \<lambda>t. TtsThrows)) example_doc
      = [Some ''AQCA/w=='', None, Some ''AQCA/w=='']"
    using inst by (simp add: example_doc_payloads)
  have all: "promise_all (map decodeSegment
        (generateAudioSegments (?tts(Suc 0 := \<lambda>t. TtsThrows)) example_doc))
      = Inr [?b, silent_segment, ?b]"
    by (simp add: ps decode_example_payload decodeSegment_None)
  have ab: "audioBuffers (submit_audio
        (generateAudioSegments (?tts(Suc 0 := \<lambda>t. TtsThrows)) example_doc) 0 initial)
      = [?b, silent_segment, ?b]"
    using inst all by blast
  have dur: "duration silent_segment = 2"
    using inst by blast
  show ?thesis
    using ps all ab dur by (intro conjI)
qed

lemma atob_throws: "atob base64 = Inl e \<Longrightarrow> e = InvalidCharacterError"
  by (auto simp: atob_def Let_def split: if_splits option.splits)

text \<open>
  C6, as amended. When the payload of a segment is malformed base64, its decoding throws
  \<^verbatim>\<open>InvalidCharacterError\<close>, and the \<^verbatim>\<open>try\<close> of \<^verbatim>\<open>handleSubmit\<close> catches the failure of the
  batch: the submission ends in the state \<open>ERROR\<close> with an error to show, no buffer is
  stored (no silence is substituted) and nothing plays.
\<close>

theorem malformed_payload_fails_submission:
  assumes "\<not> blank query"
    and "gen query = Inr d"
    and "i \<le> length (steps d)"
    and "generateAudioSegments tts d ! i = Some base64"
    and "atob base64 = Inl e"
  shows "decodeSegment (Some base64) = Inl InvalidCharacterError
    \<and> (\<exists>e'. error (handleSubmit gen tts query now s) = Some e')
    \<and> loadingState (handleSubmit gen tts query now s) = ERROR
    \<and> audioBuffers (handleSubmit gen tts query now s) = []
    \<and> \<not> isPlaying (handleSubmit gen tts query now s)
    \<and> audioSource (handleSubmit gen tts query now s) = None"
proof -
  have e: "e = InvalidCharacterError" using assms(5) by (rule atob_throws)
  have ne: "base64 \<noteq> []" using assms(5) by (auto simp: atob_examples)
  have dec: "decodeSegment (Some base64) = Inl InvalidCharacterError"
    using assms(5) ne e by (simp add: decodeSegment_def createAudioBufferFromPCM_def decode_eq)
  let ?rs = "map decodeSegment (generateAudioSegments tts d)"
  have "i < length ?rs" "?rs ! i = Inl InvalidCharacterError"
    using assms(3,4) dec by (simp_all add: length_generateAudioSegments)
  then obtain e' where all: "promise_all ?rs = Inl e'"
    using promise_all_Inl by blast
  have "handleSubmit gen tts query now s
      = submit_catch e' (getAudioContext (submit_content d (submit_begin s)))"
    using assms(1,2) all by (simp add: handleSubmit_def submit_audio_def Let_def)
  then show ?thesis
    using dec
    by (simp add: submit_catch_def getAudioContext_def submit_content_def submit_begin_def
        stopAudio_def Let_def split: option.splits)
qed

theorem malformed_payload_fails_submission_witness:
  "\<not> blank ''flexbox''
   \<and> generateAudioSegments (\<lambda>i t. if i = Suc 0 then TtsAnswers (Some ''!!!!'') else TtsThrows)
        example_doc ! Suc 0 = Some ''!!!!''
   \<and> atob ''!!!!'' = Inl InvalidCharacterError
   \<and> loadingState (handleSubmit (\<lambda>q. Inr example_doc)
        (\<lambda>i t. if i = Suc 0 then TtsAnswers (Some ''!!!!'') else TtsThrows) ''flexbox'' 0 initial) = ERROR
   \<and> audioBuffers (handleSubmit (\<lambda>q. Inr example_doc)
        (\<lambda>i t. if i = Suc 0 then TtsAnswers (Some ''!!!!'') else TtsThrows) ''flexbox'' 0 initial) = []"
proof -
  let ?tts = "\<lambda>(i::nat) (t::string). if i = Suc 0 then TtsAnswers (Some ''!!!!'') else TtsThrows"
  have q: "\<not> blank ''flexbox''" by (simp add: blank_def)
  have g: "(\<lambda>q::string. (Inr example_doc :: exn + TutorialData)) ''flexbox'' = Inr example_doc"
    by simp
  have i: "Suc 0 \<le> length (steps example_doc)" by (simp add: example_doc_def)
  have p: "generateAudioSegments ?tts example_doc ! Suc 0 = Some ''!!!!''"
    by (simp add: generateAudioSegments_def segments_def example_doc_def generateSegment_def)
  have a: "atob ''!!!!'' = Inl InvalidCharacterError" by (rule atob_examples)
  show ?thesis
    using q p a malformed_payload_fails_submission [OF q g i p a, of 0 initial] by simp
qed

text \<open>
  C6 as stated fails: a malformed payload for step 1 makes the submission fail, while a
  synthesis failure of every segment gives three silent buffers and a ready player.
\<close>

theorem malformed_payload_is_fatal:
  "loadingState (handleSubmit (\<lambda>q. Inr example_doc)
      (\<lambda>i t. if i = Suc 0 then TtsAnswers (Some ''!!!!'') else TtsThrows) ''flexbox'' 0 initial) = ERROR
   \<and> error (handleSubmit (\<lambda>q. Inr example_doc)
      (\<lambda>i t. if i = Suc 0 then TtsAnswers (Some ''!!!!'') else TtsThrows) ''flexbox'' 0 initial)
       = Some InvalidCharacterError
   \<and> audioBuffers (handleSubmit (\<lambda>q. Inr example_doc)
      (\<lambda>i t. if i = Suc 0 then TtsAnswers (Some ''!!!!'') else TtsThrows) ''flexbox'' 0 initial) = []
   \<and> loadingState (handleSubmit (\<lambda>q. Inr example_doc) (\<lambda>i t. TtsThrows) ''flexbox'' 0 initial)
       = READY
   \<and> error (handleSubmit (\<lambda>q. Inr example_doc) (\<lambda>i t. TtsThrows) ''flexbox'' 0 initial) = None
   \<and> audioBuffers (handleSubmit (\<lambda>q. Inr example_doc) (\<lambda>i t. TtsThrows) ''flexbox'' 0 initial)
       = [silent_segment, silent_segment, silent_segment]"
proof -
  have q: "\<not> blank ''flexbox''" by (simp add: blank_def)
  have bad: "map decodeSegment (generateAudioSegments
        (\<lambda>i t. if i = Suc 0 then TtsAnswers (Some ''!!!!'') else TtsThrows) example_doc)
      = [Inr silent_segment, Inl InvalidCharacterError, Inr silent_segment]"
    by (simp add: generateAudioSegments_def segments_def example_doc_def generateSegment_def
        decodeSegment_def createBuffer_silence createAudioBufferFromPCM_def decode_eq
        atob_examples)
  have good: "map decodeSegment (generateAudioSegments (\<lambda>i t. TtsThrows) example_doc)
      = [Inr silent_segment, Inr silent_segment, Inr silent_segment]"
    by (simp add: generateAudioSegments_def segments_def example_doc_def generateSegment_def
        decodeSegment_None)
  show ?thesis
    using q
    by (simp add: handleSubmit_def submit_audio_def bad good Let_def submit_catch_def
        getAudioContext_def submit_content_def submit_begin_def stopAudio_def initial_def
        playAudio_def playSegment_def)
qed


section \<open>Playback: pause and the out-of-range guard\<close>





lemma example_playing_eq:
  "example_playing =
     \<lparr>tutorialData = Some example_doc, loadingState = READY, error = None, isPlaying = True,
      currentStepIndex = 0, audioContext = True,
      audioBuffers = [silent_segment, silent_segment, silent_segment],
      audioSource = Some 0, startTime = 10, pauseOffset = 0, isExporting = False,
      activeBufferIndex = 0, nextSource = 1, onended = [(0, 0)], sounding = {0},
      recorder = Inactive, chunks = [], mimeType = [], onstop = False, downloads = []\<rparr>"
  by (simp add: example_playing_def run_def initial_def submit_begin_def stopAudio_def
      submit_content_def submit_audio_def decodeSegment_None getAudioContext_def playAudio_def
      playSegment_def Let_def)



lemma example_last_segment_eq:
  "example_last_segment =
     \<lparr>tutorialData = Some example_doc, loadingState = READY, error = None, isPlaying = True,
      currentStepIndex = 2, audioContext = True,
      audioBuffers = [silent_segment, silent_segment, silent_segment],
      audioSource = Some 2, startTime = 14, pauseOffset = 0, isExporting = False,
      activeBufferIndex = 2, nextSource = 3, onended = [(2, 2), (1, 1), (0, 0)],
      sounding = {2}, recorder = Inactive, chunks = [], mimeType = [], onstop = False,
      downloads = []\<rparr>"
proof -
  have "example_last_segment = run example_playing [SourceEnded 0 12, SourceEnded 1 14]"
    by (simp add: example_last_segment_def example_playing_def run_def)
  then show ?thesis
    by (simp add: example_playing_eq run_def source_ended_def playSegment_def
        getAudioContext_def Let_def numeral_2_eq_2 numeral_3_eq_3)
qed




section \<open>Playback: natural completion of the whole sequence\<close>

lemma playSegment_in_range:
  "index < length (audioBuffers s) \<Longrightarrow> 0 \<le> offset \<Longrightarrow>
     playSegment s index offset now =
       (None, s\<lparr>audioContext := True, nextSource := Suc (nextSource s),
                sounding := insert (nextSource s) (sounding s),
                startTime := now - offset, audioSource := Some (nextSource s),
                activeBufferIndex := index, currentStepIndex := index, isPlaying := True,
                onended := (nextSource s, index) # onended s\<rparr>)"
  by (simp add: playSegment_def getAudioContext_def Let_def)

lemma playSegment_playing_at:
  "index < length (audioBuffers s) \<Longrightarrow> 0 \<le> offset \<Longrightarrow>
     playing_at (snd (playSegment s index offset now)) index
     \<and> audioBuffers (snd (playSegment s index offset now)) = audioBuffers s
     \<and> startTime (snd (playSegment s index offset now)) = now - offset"
  by (simp add: playSegment_in_range playing_at_def)

lemma natural_completion_next:
  assumes "playing_at s i" and "Suc i < length (audioBuffers s)"
  shows "playing_at (natural_completion s now) (Suc i)
    \<and> audioBuffers (natural_completion s now) = audioBuffers s"
proof -
  from assms(1) obtain source where src: "audioSource s = Some source" "source \<in> sounding s"
    "map_of (onended s) source = Some i"
    by (auto simp: playing_at_def)
  let ?s = "s\<lparr>sounding := sounding s - {source}\<rparr>"
  have "natural_completion s now = snd (playSegment ?s (Suc i) 0 now)"
    using src by (simp add: natural_completion_def source_ended_def Let_def)
  then show ?thesis
    using playSegment_playing_at [of "Suc i" ?s 0 now] assms(2) by simp
qed

lemma natural_completion_last:
  assumes "playing_at s i" and "Suc i = length (audioBuffers s)"
  shows "\<not> isPlaying (natural_completion s now)
    \<and> activeBufferIndex (natural_completion s now) = 0
    \<and> currentStepIndex (natural_completion s now) = 0
    \<and> pauseOffset (natural_completion s now) = 0
    \<and> audioBuffers (natural_completion s now) = audioBuffers s"
proof -
  from assms(1) obtain source where src: "audioSource s = Some source" "source \<in> sounding s"
    "map_of (onended s) source = Some i"
    by (auto simp: playing_at_def)
  show ?thesis
    using src assms(2)
    by (simp add: natural_completion_def source_ended_def Let_def playSegment_def
        getAudioContext_def)
qed

lemma completions_Cons:
  "completions s [] = s"
  "completions s (t # ts) = completions (natural_completion s t) ts"
  by (simp_all add: completions_def)

lemma completions_advance:
  "playing_at s i \<Longrightarrow> i + k < length (audioBuffers s) \<Longrightarrow> k \<le> length ts \<Longrightarrow>
     playing_at (completions s (take k ts)) (i + k)"
proof (induction ts arbitrary: s i k)
  case Nil
  then show ?case by (simp add: completions_Cons)
next
  case (Cons t ts)
  show ?case
  proof (cases k)
    case 0
    with Cons.prems show ?thesis by (simp add: completions_Cons)
  next
    case (Suc k')
    have n: "playing_at (natural_completion s t) (Suc i)"
      "audioBuffers (natural_completion s t) = audioBuffers s"
      using natural_completion_next [of s i t] Cons.prems Suc by simp_all
    have "playing_at (completions (natural_completion s t) (take k' ts)) (Suc i + k')"
      using Cons.prems Suc n by (intro Cons.IH) simp_all
    then show ?thesis using Suc by (simp add: completions_Cons)
  qed
qed

lemma completions_end:
  "playing_at s i \<Longrightarrow> i + length ts = length (audioBuffers s) \<Longrightarrow>
     \<not> isPlaying (completions s ts)
     \<and> activeBufferIndex (completions s ts) = 0
     \<and> currentStepIndex (completions s ts) = 0
     \<and> pauseOffset (completions s ts) = 0
     \<and> audioBuffers (completions s ts) = audioBuffers s"
proof (induction ts arbitrary: s i)
  case Nil
  then show ?case by (simp add: playing_at_def completions_Cons)
next
  case (Cons t ts)
  show ?case
  proof (cases ts)
    case Nil
    then show ?thesis
      using natural_completion_last [of s i t] Cons.prems by (simp add: completions_Cons)
  next
    case (Cons t' ts')
    have n: "playing_at (natural_completion s t) (Suc i)"
      "audioBuffers (natural_completion s t) = audioBuffers s"
      using natural_completion_next [of s i t] Cons.prems Cons by simp_all
    show ?thesis
      using Cons.IH [of "natural_completion s t" "Suc i"] n Cons.prems
      by (simp add: completions_Cons)
  qed
qed

text \<open>
  C2. Let the engine hold \<open>N\<close> segments and be idle at segment 0 with offset 0. \<^verbatim>\<open>playAudio\<close>
  throws nothing; after \<open>k < N\<close> natural completions segment \<open>k\<close> is the active and the
  shown one and the engine is playing, so the index runs through \<open>0, 1, ..., N - 1\<close> in
  order; after the \<open>N\<close>-th completion the engine is in Ended: not playing, active and
  shown index 0, offset 0. A following \<^verbatim>\<open>playAudio\<close> then plays segment 0 from its
  start.
\<close>

theorem natural_completions_reach_ended:
  assumes "activeBufferIndex s = 0"
    and "pauseOffset s = 0"
    and "length ts = length (audioBuffers s)"
  shows "fst (playAudio s now) = None
    \<and> (\<forall>k<length ts.
          activeBufferIndex (completions (snd (playAudio s now)) (take k ts)) = k
          \<and> currentStepIndex (completions (snd (playAudio s now)) (take k ts)) = k
          \<and> isPlaying (completions (snd (playAudio s now)) (take k ts)))
    \<and> \<not> isPlaying (completions (snd (playAudio s now)) ts)
    \<and> activeBufferIndex (completions (snd (playAudio s now)) ts) = 0
    \<and> currentStepIndex (completions (snd (playAudio s now)) ts) = 0
    \<and> pauseOffset (completions (snd (playAudio s now)) ts) = 0
    \<and> (ts \<noteq> []
         \<longrightarrow> fst (playAudio (completions (snd (playAudio s now)) ts) now') = None
           \<and> activeBufferIndex (snd (playAudio (completions (snd (playAudio s now)) ts) now')) = 0
           \<and> currentStepIndex (snd (playAudio (completions (snd (playAudio s now)) ts) now')) = 0
           \<and> isPlaying (snd (playAudio (completions (snd (playAudio s now)) ts) now'))
           \<and> startTime (snd (playAudio (completions (snd (playAudio s now)) ts) now')) = now')"
proof (cases ts)
  case Nil
  then show ?thesis
    using assms
    by (simp add: playAudio_def playSegment_def getAudioContext_def Let_def completions_Cons)
next
  case (Cons t ts')
  let ?s1 = "snd (playAudio s now)"
  let ?sN = "completions ?s1 ts"
  have pos: "0 < length (audioBuffers s)" using assms(3) Cons by auto
  have play: "playAudio s now = playSegment s 0 0 now"
    using assms by (simp add: playAudio_def)
  have ok: "fst (playAudio s now) = None"
    using pos by (simp add: play playSegment_in_range)
  have p0: "playing_at ?s1 0" and b1: "audioBuffers ?s1 = audioBuffers s"
    using playSegment_playing_at [of 0 s 0 now] pos by (simp_all add: play)
  have adv: "activeBufferIndex (completions ?s1 (take k ts)) = k
      \<and> currentStepIndex (completions ?s1 (take k ts)) = k
      \<and> isPlaying (completions ?s1 (take k ts))" if "k < length ts" for k
    using completions_advance [OF p0, of k ts] that assms(3) b1 by (auto simp: playing_at_def)
  have fin: "\<not> isPlaying ?sN \<and> activeBufferIndex ?sN = 0 \<and> currentStepIndex ?sN = 0
      \<and> pauseOffset ?sN = 0 \<and> audioBuffers ?sN = audioBuffers ?s1"
    using completions_end [OF p0, of ts] assms(3) b1 by simp
  have again: "playAudio ?sN now' = playSegment ?sN 0 0 now'"
    using fin by (simp add: playAudio_def)
  have re: "fst (playAudio ?sN now') = None
      \<and> activeBufferIndex (snd (playAudio ?sN now')) = 0
      \<and> currentStepIndex (snd (playAudio ?sN now')) = 0
      \<and> isPlaying (snd (playAudio ?sN now'))
      \<and> startTime (snd (playAudio ?sN now')) = now'"
    using fin b1 pos by (simp add: again playSegment_in_range)
  show ?thesis
    using ok adv fin re by blast
qed


theorem natural_completions_reach_ended_witness:
  "activeBufferIndex (ended example_last_segment) = 0
   \<and> pauseOffset (ended example_last_segment) = 0
   \<and> length [22, 24, 26 :: real] = length (audioBuffers (ended example_last_segment))
   \<and> activeBufferIndex (completions (snd (playAudio (ended example_last_segment) 20)) [22]) = 1
   \<and> activeBufferIndex (completions (snd (playAudio (ended example_last_segment) 20)) [22, 24]) = 2
   \<and> isPlaying (completions (snd (playAudio (ended example_last_segment) 20)) [22, 24])
   \<and> \<not> isPlaying (completions (snd (playAudio (ended example_last_segment) 20)) [22, 24, 26])
   \<and> activeBufferIndex
        (completions (snd (playAudio (ended example_last_segment) 20)) [22, 24, 26]) = 0
   \<and> pauseOffset (completions (snd (playAudio (ended example_last_segment) 20)) [22, 24, 26]) = 0
   \<and> activeBufferIndex (snd (playAudio
        (completions (snd (playAudio (ended example_last_segment) 20)) [22, 24, 26]) 30)) = 0
   \<and> isPlaying (snd (playAudio
        (completions (snd (playAudio (ended example_last_segment) 20)) [22, 24, 26]) 30))"
proof -
  let ?s1 = "snd (playAudio (ended example_last_segment) 20)"
  have h: "activeBufferIndex (ended example_last_segment) = 0"
    "pauseOffset (ended example_last_segment) = 0"
    "length [22, 24, 26 :: real] = length (audioBuffers (ended example_last_segment))"
    by (simp_all add: ended_def example_last_segment_eq)
  note inst = natural_completions_reach_ended [OF h, of 20 30]
  from inst have a: "\<forall>k<length [22, 24, 26 :: real].
      activeBufferIndex (completions ?s1 (take k [22, 24, 26])) = k
      \<and> currentStepIndex (completions ?s1 (take k [22, 24, 26])) = k
      \<and> isPlaying (completions ?s1 (take k [22, 24, 26]))"
    by blast
  have k1: "activeBufferIndex (completions ?s1 [22]) = 1"
    using a [rule_format, of 1] by simp
  have k2: "activeBufferIndex (completions ?s1 [22, 24]) = 2"
    "isPlaying (completions ?s1 [22, 24])"
    using a [rule_format, of 2] by simp_all
  have ne: "[22, 24, 26 :: real] \<noteq> []" by simp
  from inst ne have r: "\<not> isPlaying (completions ?s1 [22, 24, 26])"
    "activeBufferIndex (completions ?s1 [22, 24, 26]) = 0"
    "pauseOffset (completions ?s1 [22, 24, 26]) = 0"
    "activeBufferIndex (snd (playAudio (completions ?s1 [22, 24, 26]) 30)) = 0"
    "isPlaying (snd (playAudio (completions ?s1 [22, 24, 26]) 30))"
    by blast+
  show ?thesis
    using h k1 k2 r by (intro conjI)
qed


section \<open>Playback: stale completions\<close>

lemma advance_refl: "advance s s"
  by (simp add: advance_def)

lemma advance_trans: "advance s s' \<Longrightarrow> advance s' s'' \<Longrightarrow> advance s s''"
  unfolding advance_def by (elim conjE disjE exE) auto

lemma same_audio_advance: "same_audio s s' \<Longrightarrow> advance s s'"
  by (simp add: same_audio_def advance_def)

lemma same_audio_trans: "same_audio s s' \<Longrightarrow> same_audio s' s'' \<Longrightarrow> same_audio s s''"
  by (simp add: same_audio_def)

lemma advance_playSegment: "advance s (snd (playSegment s index offset now))"
  by (simp add: advance_def playSegment_def getAudioContext_def Let_def)

lemma advance_stopAudio: "advance s (stopAudio s)"
  by (simp add: advance_def stopAudio_def Let_def split: option.splits)

lemma advance_pauseAudio: "advance s (pauseAudio s now)"
  by (simp add: advance_def pauseAudio_def Let_def split: option.splits)

lemma advance_source_ended: "advance s (snd (source_ended s source now))"
proof -
  have "advance s (s\<lparr>sounding := sounding s - {source}\<rparr>)"
    by (simp add: advance_def)
  moreover have "advance (s\<lparr>sounding := sounding s - {source}\<rparr>)
      (snd (source_ended s source now))"
    using advance_playSegment [of "s\<lparr>sounding := sounding s - {source}\<rparr>"]
    by (simp add: source_ended_def Let_def advance_refl split: option.splits)
  ultimately show ?thesis by (rule advance_trans)
qed

lemma advance_playAudio: "advance s (snd (playAudio s now))"
  by (simp add: playAudio_def advance_playSegment)

lemma advance_handleTogglePlay: "advance s (snd (handleTogglePlay s now))"
  by (simp add: handleTogglePlay_def advance_pauseAudio advance_playAudio)

lemma advance_handleReplay: "advance s (snd (handleReplay s now))"
  using advance_stopAudio [of s] advance_playAudio [of "stopAudio s" now]
  by (auto simp: handleReplay_def intro: advance_trans)

lemma advance_handleDeepDive: "advance s (handleDeepDive s now)"
  by (simp add: handleDeepDive_def advance_pauseAudio advance_refl)

lemma advance_submit_begin: "advance s (submit_begin s)"
proof -
  have "same_audio (stopAudio s) (submit_begin s)"
    by (simp add: same_audio_def submit_begin_def)
  then show ?thesis
    using advance_stopAudio [of s] by (blast intro: advance_trans same_audio_advance)
qed

lemma advance_submit_content: "advance s (submit_content d s)"
  by (simp add: advance_def submit_content_def)

lemma advance_submit_catch: "advance s (submit_catch e s)"
  by (simp add: advance_def submit_catch_def)

lemma advance_submit_audio: "advance s (submit_audio ps now s)"
proof (cases "promise_all (map decodeSegment ps)")
  case (Inl e)
  then show ?thesis
    by (simp add: submit_audio_def Let_def advance_def submit_catch_def getAudioContext_def)
next
  case (Inr buffers)
  let ?s1 = "(getAudioContext s)\<lparr>audioBuffers := buffers, loadingState := READY\<rparr>"
  have a: "advance s ?s1" by (simp add: advance_def getAudioContext_def)
  have b: "advance ?s1 (snd (playAudio ?s1 now))" by (rule advance_playAudio)
  have c: "advance (snd (playAudio ?s1 now)) (submit_catch e (snd (playAudio ?s1 now)))" for e
    by (rule advance_submit_catch)
  show ?thesis
    using Inr a b c
    by (auto simp: submit_audio_def Let_def split: prod.splits option.splits
        intro: advance_trans dest: advance_trans)
qed


lemma same_audio_ondataavailable: "same_audio s (ondataavailable n s)"
  by (simp add: same_audio_def ondataavailable_def)

lemma same_audio_stop_event: "same_audio s (stop_event s)"
  by (simp add: same_audio_def stop_event_def onstop_handler_def)

lemma same_audio_recorder_error: "same_audio s (recorder_error p s)"
  by (simp add: same_audio_def recorder_error_def stop_event_def onstop_handler_def
      ondataavailable_def)

lemma same_audio_export_segment: "same_audio s (snd (export_segment p i s))"
  by (simp add: same_audio_def export_segment_def Let_def recorder_error_def stop_event_def
      onstop_handler_def ondataavailable_def split: sum.splits option.splits)

lemma same_audio_export_finish: "same_audio s (snd (export_finish p s))"
  by (simp add: same_audio_def export_finish_def stop_event_def onstop_handler_def
      ondataavailable_def)

lemma advance_export_begin: "advance s (snd (export_begin p s))"
proof -
  have "same_audio (stopAudio s) ((stopAudio s)\<lparr>isExporting := True\<rparr>)"
    by (simp add: same_audio_def)
  then have a: "advance s ((stopAudio s)\<lparr>isExporting := True\<rparr>)"
    using advance_stopAudio [of s] by (blast intro: advance_trans same_audio_advance)
  have "advance ((stopAudio s)\<lparr>isExporting := True\<rparr>) (snd (export_begin p s))"
    by (simp add: advance_def export_begin_def getAudioContext_def Let_def)
  with a show ?thesis by (rule advance_trans)
qed

lemma advance_step: "advance s (step s ev)"
  by (cases ev)
    (simp_all add: advance_handleTogglePlay advance_handleReplay advance_handleDeepDive
      advance_submit_begin advance_submit_content advance_submit_audio advance_submit_catch
      advance_source_ended advance_export_begin advance_stopAudio advance_refl
      same_audio_advance same_audio_export_segment same_audio_export_finish)

lemma run_Cons: "run s [] = s" "run s (ev # evs) = run (step s ev) evs"
  by (simp_all add: run_def)

lemma advance_run: "advance s (run s evs)"
proof (induction evs arbitrary: s)
  case Nil
  show ?case by (simp add: run_Cons advance_refl)
next
  case (Cons ev evs)
  show ?case
    using advance_step [of s ev] Cons [of "step s ev"]
    by (auto simp: run_Cons intro: advance_trans)
qed

lemma live_ok_advance: "live_ok s \<Longrightarrow> advance s s' \<Longrightarrow> live_ok s'"
  unfolding live_ok_def advance_def by (elim conjE disjE exE) auto

lemma live_ok_initial: "live_ok initial"
  by (simp add: live_ok_def initial_def)

lemma live_ok_run_initial: "live_ok (run initial evs)"
  using live_ok_initial advance_run by (rule live_ok_advance)

lemma stale_advance:
  "source < nextSource s \<Longrightarrow> audioSource s \<noteq> Some source \<Longrightarrow> advance s s' \<Longrightarrow>
     audioSource s' \<noteq> Some source"
  unfolding advance_def by (elim conjE disjE exE) auto

lemma source_ended_stale:
  "audioSource s \<noteq> Some source \<Longrightarrow>
     source_ended s source now = (None, s\<lparr>sounding := sounding s - {source}\<rparr>)"
  by (simp add: source_ended_def Let_def split: option.splits)

text \<open>
  C1. Take any state \<open>s\<close> that some interleaving of tasks reaches from the initial
  state, and any node \<open>source\<close> created so far. After \<^verbatim>\<open>stopAudio\<close>, after \<^verbatim>\<open>pauseAudio\<close>,
  after the start of a new submission, after a replay, and after \<^verbatim>\<open>playSegment\<close> has
  scheduled a newer node, \<open>source\<close> is not the live reference. And once it is not the
  live reference it never is again: after every further interleaving its \<^verbatim>\<open>ended\<close> event
  throws nothing and changes nothing but the platform's record that the node no longer
  sounds; \<^verbatim>\<open>playSegment\<close> is not called. So only the completion of the node that
  \<^verbatim>\<open>audioSourceRef\<close> holds can advance the engine.
\<close>

theorem stale_completion_is_inert:
  assumes "s = run initial evs" and "source < nextSource s"
  shows "audioSource (stopAudio s) \<noteq> Some source
    \<and> audioSource (pauseAudio s t) \<noteq> Some source
    \<and> audioSource (submit_begin s) \<noteq> Some source
    \<and> audioSource (snd (handleReplay s t)) \<noteq> Some source
    \<and> (index < length (audioBuffers s) \<and> 0 \<le> offset
         \<longrightarrow> audioSource (snd (playSegment s index offset t)) \<noteq> Some source)
    \<and> (audioSource s \<noteq> Some source
         \<longrightarrow> (\<forall>evs' now.
                audioSource (run s evs') \<noteq> Some source
                \<and> source_ended (run s evs') source now
                    = (None, (run s evs')\<lparr>sounding := sounding (run s evs') - {source}\<rparr>)))"
proof -
  have ok: "live_ok s" unfolding assms(1) by (rule live_ok_run_initial)
  have 1: "audioSource (stopAudio s) \<noteq> Some source"
    by (simp add: stopAudio_def Let_def split: option.splits)
  have 2: "audioSource (pauseAudio s t) \<noteq> Some source"
    using ok by (auto simp: pauseAudio_def live_ok_def Let_def split: option.splits)
  have 3: "audioSource (submit_begin s) \<noteq> Some source"
    using 1 by (simp add: submit_begin_def)
  have 4: "audioSource (snd (handleReplay s t)) \<noteq> Some source"
  proof -
    have "source < nextSource (stopAudio s)"
      using assms(2) by (simp add: stopAudio_def Let_def split: option.splits)
    then show ?thesis
      using stale_advance [OF _ 1 advance_playAudio [of "stopAudio s" t]]
      by (simp add: handleReplay_def)
  qed
  have 5: "audioSource (snd (playSegment s index offset t)) \<noteq> Some source"
    if "index < length (audioBuffers s) \<and> 0 \<le> offset"
    using that assms(2) by (simp add: playSegment_def getAudioContext_def Let_def)
  have 6: "audioSource (run s evs') \<noteq> Some source
      \<and> source_ended (run s evs') source now
          = (None, (run s evs')\<lparr>sounding := sounding (run s evs') - {source}\<rparr>)"
    if "audioSource s \<noteq> Some source" for evs' now
  proof -
    have "audioSource (run s evs') \<noteq> Some source"
      using assms(2) that advance_run by (rule stale_advance)
    then show ?thesis by (simp add: source_ended_stale)
  qed
  show ?thesis
    using 1 2 3 4 5 6 by blast
qed


theorem stale_completion_is_inert_witness:
  "run initial [SubmitBegin, SubmitContent example_doc, SubmitAudio [None, None, None] 10,
                SourceEnded 0 12, SourceEnded 1 14, TogglePlay 15]
     = pauseAudio example_last_segment 15
   \<and> 2 < nextSource (pauseAudio example_last_segment 15)
   \<and> audioSource (pauseAudio example_last_segment 15) \<noteq> Some 2
   \<and> audioSource (run (pauseAudio example_last_segment 15) [TogglePlay 16]) = Some 3
   \<and> source_ended (run (pauseAudio example_last_segment 15) [TogglePlay 16]) 2 17
       = (None, (run (pauseAudio example_last_segment 15) [TogglePlay 16])
                  \<lparr>sounding := sounding (run (pauseAudio example_last_segment 15)
                                         [TogglePlay 16]) - {2}\<rparr>)"
proof -
  let ?evs = "[SubmitBegin, SubmitContent example_doc, SubmitAudio [None, None, None] 10,
               SourceEnded 0 12, SourceEnded 1 14, TogglePlay 15]"
  let ?s = "pauseAudio example_last_segment 15"
  have "run initial ?evs = step example_last_segment (TogglePlay 15)"
    by (simp add: example_last_segment_def run_def)
  then have e: "?s = run initial ?evs"
    by (simp add: handleTogglePlay_def example_last_segment_eq)
  have n: "2 < nextSource ?s"
    by (simp add: example_last_segment_eq pauseAudio_def Let_def)
  have st: "audioSource ?s \<noteq> Some 2"
    by (simp add: example_last_segment_eq pauseAudio_def Let_def)
  have live: "audioSource (run ?s [TogglePlay 16]) = Some 3"
    by (simp add: run_def handleTogglePlay_def playAudio_def playSegment_def getAudioContext_def
        example_last_segment_eq pauseAudio_def buffer_duration_or_0_def duration_silent_segment
        Let_def)
  from stale_completion_is_inert [OF e n] st
  have "source_ended (run ?s [TogglePlay 16]) 2 17
      = (None, (run ?s [TogglePlay 16])\<lparr>sounding := sounding (run ?s [TogglePlay 16]) - {2}\<rparr>)"
    by blast
  then show ?thesis
    using e n st live by simp
qed


section \<open>Capture and export: lemmas and claims\<close>

lemma export_segment_ok:
  "recorder s \<noteq> Inactive \<Longrightarrow> export_ok p j \<Longrightarrow>
     export_segment p j s = (None, s\<lparr>currentStepIndex := j, recorder := Recording\<rparr>)"
  by (simp add: export_segment_def export_ok_def recorder_pause_def recorder_resume_def Let_def)

lemma export_segment_fault:
  assumes "recorder s \<noteq> Inactive" and "\<not> onstop s" and "\<not> export_ok p i"
  shows "export_segment p i s =
     (Some (case html2canvas p i of Some e \<Rightarrow> e | None \<Rightarrow> InvalidStateError),
      if recorderFails p i
      then s\<lparr>currentStepIndex := i, recorder := Inactive,
             chunks := (if recorded p > 0 then chunks s @ [recorded p] else chunks s)\<rparr>
      else s\<lparr>currentStepIndex := i, recorder := Paused\<rparr>)"
  using assms
  by (auto simp: export_segment_def export_ok_def recorder_pause_def recorder_resume_def
      recorder_error_def stop_event_def ondataavailable_def Let_def split: option.splits)

lemma export_segment_throws:
  "\<not> export_ok p i \<Longrightarrow> fst (export_segment p i s) \<noteq> None"
  by (auto simp: export_segment_def export_ok_def recorder_pause_def recorder_resume_def
      recorder_error_def stop_event_def ondataavailable_def onstop_handler_def Let_def
      split: option.splits)

lemma export_segment_after_ok:
  assumes "recorder s = Recording"
  shows "export_segment p i (s\<lparr>currentStepIndex := j, recorder := Recording\<rparr>)
     = export_segment p i s"
proof -
  have "s\<lparr>recorder := Recording\<rparr> = s"
    using assms by (cases s) simp
  then have "s\<lparr>currentStepIndex := j, recorder := Recording\<rparr> = s\<lparr>currentStepIndex := j\<rparr>"
    by (metis app.update_convs(5) app.update_convs(16) app.surjective)
  then show ?thesis
    by (simp add: export_segment_def Let_def)
qed

lemma export_loop_fault:
  assumes "recorder s = Recording" and "i < n" and "\<not> export_ok p i"
    and "a \<le> i" and "\<forall>j. a \<le> j \<and> j < i \<longrightarrow> export_ok p j"
  shows "export_loop p a n s = export_segment p i s"
  using assms
proof (induction "i - a" arbitrary: a s)
  case 0
  then have "a = i" by simp
  then show ?case
    using 0 export_segment_throws [of p i s]
    by (cases "export_segment p i s") auto
next
  case (Suc k)
  then have lt: "a < i" and ok: "export_ok p a" by auto
  let ?s' = "s\<lparr>currentStepIndex := a, recorder := Recording\<rparr>"
  have seg: "export_segment p a s = (None, ?s')"
    using Suc.prems(1) ok by (simp add: export_segment_ok)
  have "export_loop p (Suc a) n ?s' = export_segment p i ?s'"
    using Suc lt by (intro Suc.hyps(1)) auto
  moreover have "export_segment p i ?s' = export_segment p i s"
    using Suc.prems(1) by (rule export_segment_after_ok)
  ultimately show ?case
    using seg lt Suc.prems(2) by simp
qed

lemma export_loop_ok:
  assumes "recorder s = Recording" and "\<forall>j. a \<le> j \<and> j < n \<longrightarrow> export_ok p j"
  shows "export_loop p a n s
     = (None, if a < n then s\<lparr>currentStepIndex := n - 1, recorder := Recording\<rparr> else s)"
  using assms
proof (induction "n - a" arbitrary: a s)
  case 0
  then show ?case by simp
next
  case (Suc k)
  then have lt: "a < n" and ok: "export_ok p a" by auto
  let ?s' = "s\<lparr>currentStepIndex := a, recorder := Recording\<rparr>"
  have seg: "export_segment p a s = (None, ?s')"
    using Suc.prems(1) ok by (simp add: export_segment_ok)
  have "export_loop p (Suc a) n ?s'
      = (None, if Suc a < n then ?s'\<lparr>currentStepIndex := n - 1, recorder := Recording\<rparr>
               else ?s')"
    using Suc by (intro Suc.hyps(1)) auto
  then show ?case
    using seg lt by (auto simp: less_Suc_eq)
qed


lemma export_begin_ok:
  "isTypeSupported p (negotiate p) \<Longrightarrow>
     export_begin p s =
       (None, (stopAudio s)\<lparr>isExporting := True, audioContext := True,
                             mimeType := negotiate p, chunks := [], onstop := False,
                             recorder := Recording\<rparr>)"
  by (simp add: export_begin_def getAudioContext_def Let_def)

lemma handleExportVideo_started:
  assumes "tutorialData s = Some d" and "exportContainer s" and "\<not> isExporting s"
    and "isTypeSupported p (negotiate p)"
  shows "handleExportVideo p s =
     and_then (export_loop p 0 (length (steps d) + 1)
        ((stopAudio s)\<lparr>isExporting := True, audioContext := True,
                        mimeType := negotiate p, chunks := [], onstop := False,
                        recorder := Recording\<rparr>)) (export_finish p)"
  using assms by (simp add: handleExportVideo_def export_begin_ok and_then_def)

text \<open>
  C8, as amended. Let an export start (a document is shown, no export is running, the
  negotiated type is supported). If iteration \<open>i\<close> is the first to meet a fault (its
  snapshot rejects, or the recorder has met an error, so that \<^verbatim>\<open>resume()\<close> throws), the
  function ends there with that exception: the remaining iterations do not run and
  nothing is downloaded. Nothing is cleaned up either: \<open>isExporting\<close> stays true, the
  shown step stays \<open>i\<close>, the recorder stays paused (inactive after its own error) and no
  \<^verbatim>\<open>onstop\<close> handler is set. If no iteration meets a fault, the export completes: the
  recorder is inactive, one artifact of the negotiated type is downloaded, \<open>isExporting\<close>
  is false and the selection is back at segment 0.
\<close>

theorem export_failure_and_completion:
  assumes "tutorialData s = Some d" and "exportContainer s" and "\<not> isExporting s"
    and "isTypeSupported p (negotiate p)"
  shows "(i \<le> length (steps d) \<and> \<not> export_ok p i \<and> (\<forall>j<i. export_ok p j)
      \<longrightarrow> fst (handleExportVideo p s)
            = Some (case html2canvas p i of Some e \<Rightarrow> e | None \<Rightarrow> InvalidStateError)
        \<and> isExporting (snd (handleExportVideo p s))
        \<and> currentStepIndex (snd (handleExportVideo p s)) = i
        \<and> recorder (snd (handleExportVideo p s))
            = (if recorderFails p i then Inactive else Paused)
        \<and> \<not> onstop (snd (handleExportVideo p s))
        \<and> downloads (snd (handleExportVideo p s)) = downloads s)
    \<and> ((\<forall>j\<le>length (steps d). export_ok p j)
      \<longrightarrow> fst (handleExportVideo p s) = None
        \<and> \<not> isExporting (snd (handleExportVideo p s))
        \<and> currentStepIndex (snd (handleExportVideo p s)) = 0
        \<and> activeBufferIndex (snd (handleExportVideo p s)) = 0
        \<and> \<not> isPlaying (snd (handleExportVideo p s))
        \<and> recorder (snd (handleExportVideo p s)) = Inactive
        \<and> downloads (snd (handleExportVideo p s))
            = downloads s @ [(negotiate p, if recorded p > 0 then [recorded p] else [])])"
proof -
  let ?s1 = "(stopAudio s)\<lparr>isExporting := True, audioContext := True,
                            mimeType := negotiate p, chunks := [], onstop := False,
                            recorder := Recording\<rparr>"
  let ?n = "length (steps d) + 1"
  note start = handleExportVideo_started [OF assms]
  have s1: "recorder ?s1 = Recording" "\<not> onstop ?s1" by simp_all
  have d1: "downloads ?s1 = downloads s" "activeBufferIndex ?s1 = 0" "\<not> isPlaying ?s1"
    by (simp_all add: stopAudio_def Let_def split: option.splits)
  have fault: "fst (handleExportVideo p s)
        = Some (case html2canvas p i of Some e \<Rightarrow> e | None \<Rightarrow> InvalidStateError)
      \<and> isExporting (snd (handleExportVideo p s))
      \<and> currentStepIndex (snd (handleExportVideo p s)) = i
      \<and> recorder (snd (handleExportVideo p s)) = (if recorderFails p i then Inactive else Paused)
      \<and> \<not> onstop (snd (handleExportVideo p s))
      \<and> downloads (snd (handleExportVideo p s)) = downloads s"
    if h: "i \<le> length (steps d) \<and> \<not> export_ok p i \<and> (\<forall>j<i. export_ok p j)"
  proof -
    have "export_loop p 0 ?n ?s1 = export_segment p i ?s1"
      using h by (intro export_loop_fault) simp_all
    then have "handleExportVideo p s = export_segment p i ?s1"
      using export_segment_throws [of p i ?s1] h
      by (cases "export_segment p i ?s1") (auto simp: start and_then_def)
    then show ?thesis
      using export_segment_fault [of ?s1 p i] h d1 by simp
  qed
  have completed: "fst (handleExportVideo p s) = None
      \<and> \<not> isExporting (snd (handleExportVideo p s))
      \<and> currentStepIndex (snd (handleExportVideo p s)) = 0
      \<and> activeBufferIndex (snd (handleExportVideo p s)) = 0
      \<and> \<not> isPlaying (snd (handleExportVideo p s))
      \<and> recorder (snd (handleExportVideo p s)) = Inactive
      \<and> downloads (snd (handleExportVideo p s))
          = downloads s @ [(negotiate p, if recorded p > 0 then [recorded p] else [])]"
    if h: "\<forall>j\<le>length (steps d). export_ok p j"
  proof -
    have "export_loop p 0 ?n ?s1
        = (None, ?s1\<lparr>currentStepIndex := ?n - 1, recorder := Recording\<rparr>)"
      using h export_loop_ok [of ?s1 0 ?n p] by simp
    then have "handleExportVideo p s
        = export_finish p (?s1\<lparr>currentStepIndex := ?n - 1, recorder := Recording\<rparr>)"
      by (simp add: start and_then_def)
    then show ?thesis
      using d1
      by (simp add: export_finish_def stop_event_def onstop_handler_def ondataavailable_def)
  qed
  show ?thesis
    using fault completed by blast
qed

lemma example_export_guard:
  "tutorialData example_playing = Some example_doc" "exportContainer example_playing"
  "\<not> isExporting example_playing"
  by (simp_all add: example_playing_eq exportContainer_def)

lemma example_export_supported:
  "isTypeSupported example_export_env (negotiate example_export_env)"
  "negotiate example_export_env = ''video/webm''"
  "isTypeSupported (example_export_env\<lparr>html2canvas := \<lambda>i. None\<rparr>)
     (negotiate (example_export_env\<lparr>html2canvas := \<lambda>i. None\<rparr>))"
  "negotiate (example_export_env\<lparr>html2canvas := \<lambda>i. None\<rparr>) = ''video/webm''"
  by (simp_all add: negotiate_def example_export_env_def)

lemma example_export_stuck:
  "fst (handleExportVideo example_export_env example_playing)
     = Some (ExternalError ''snapshot failed'')
   \<and> isExporting (snd (handleExportVideo example_export_env example_playing))
   \<and> currentStepIndex (snd (handleExportVideo example_export_env example_playing)) = 1
   \<and> recorder (snd (handleExportVideo example_export_env example_playing)) = Paused"
proof -
  let ?s1 = "(stopAudio example_playing)\<lparr>isExporting := True, audioContext := True,
      mimeType := negotiate example_export_env, chunks := [], onstop := False,
      recorder := Recording\<rparr>"
  note g = example_export_guard example_export_supported(1)
  have nok: "\<not> export_ok example_export_env (Suc 0)"
    by (simp add: export_ok_def example_export_env_def)
  have loop: "export_loop example_export_env 0 (length (steps example_doc) + 1) ?s1
      = export_segment example_export_env (Suc 0) ?s1"
    by (intro export_loop_fault) (simp_all add: example_doc_def export_ok_def example_export_env_def)
  have thr: "fst (export_segment example_export_env (Suc 0) ?s1) \<noteq> None"
    using nok by (rule export_segment_throws)
  have "handleExportVideo example_export_env example_playing
      = export_segment example_export_env (Suc 0) ?s1"
    using loop thr
    by (cases "export_segment example_export_env (Suc 0) ?s1")
      (auto simp: handleExportVideo_started [OF g] and_then_def)
  then show ?thesis
    by (simp add: export_segment_def recorder_pause_def example_export_env_def Let_def)
qed

theorem export_failure_and_completion_witness:
  "fst (handleExportVideo example_export_env example_playing)
     = Some (ExternalError ''snapshot failed'')
   \<and> isExporting (snd (handleExportVideo example_export_env example_playing))
   \<and> currentStepIndex (snd (handleExportVideo example_export_env example_playing)) = Suc 0
   \<and> downloads (snd (handleExportVideo example_export_env example_playing)) = []
   \<and> fst (handleExportVideo (example_export_env\<lparr>html2canvas := \<lambda>i. None\<rparr>) example_playing)
       = None
   \<and> \<not> isExporting
        (snd (handleExportVideo (example_export_env\<lparr>html2canvas := \<lambda>i. None\<rparr>) example_playing))
   \<and> currentStepIndex
        (snd (handleExportVideo (example_export_env\<lparr>html2canvas := \<lambda>i. None\<rparr>) example_playing))
       = 0
   \<and> downloads
        (snd (handleExportVideo (example_export_env\<lparr>html2canvas := \<lambda>i. None\<rparr>) example_playing))
       = [(''video/webm'', [4096])]"
proof -
  let ?ok = "example_export_env\<lparr>html2canvas := \<lambda>i. None\<rparr>"
  note g = example_export_guard
  have f: "Suc 0 \<le> length (steps example_doc) \<and> \<not> export_ok example_export_env (Suc 0)
      \<and> (\<forall>j<Suc 0. export_ok example_export_env j)"
    by (simp add: example_doc_def export_ok_def example_export_env_def)
  have c: "\<forall>j\<le>length (steps example_doc). export_ok ?ok j"
    by (simp add: export_ok_def example_export_env_def)
  have d: "downloads example_playing = []" by (simp add: example_playing_eq)
  have v: "html2canvas example_export_env (Suc 0) = Some (ExternalError ''snapshot failed'')"
    "recorded ?ok = 4096"
    by (simp_all add: example_export_env_def)
  from export_failure_and_completion [OF g example_export_supported(1), of "Suc 0"] f
  have 1: "fst (handleExportVideo example_export_env example_playing)
        = Some (ExternalError ''snapshot failed'')
      \<and> isExporting (snd (handleExportVideo example_export_env example_playing))
      \<and> currentStepIndex (snd (handleExportVideo example_export_env example_playing)) = Suc 0
      \<and> downloads (snd (handleExportVideo example_export_env example_playing)) = []"
    by (simp add: v d)
  from export_failure_and_completion [OF g example_export_supported(3), of 0] c
  have 2: "fst (handleExportVideo ?ok example_playing) = None
      \<and> \<not> isExporting (snd (handleExportVideo ?ok example_playing))
      \<and> currentStepIndex (snd (handleExportVideo ?ok example_playing)) = 0
      \<and> downloads (snd (handleExportVideo ?ok example_playing)) = [(''video/webm'', [4096])]"
    by (simp add: v d example_export_supported(4))
  show ?thesis
    using 1 2 by blast
qed

text \<open>
  C8 as stated fails: when the snapshot of segment 1 fails, the export ends with the
  error, still marked as exporting, the shown step at 1 and the recorder paused.
\<close>

theorem export_failure_is_not_cleaned_up:
  "fst (handleExportVideo example_export_env example_playing)
     = Some (ExternalError ''snapshot failed'')
   \<and> isExporting (snd (handleExportVideo example_export_env example_playing))
   \<and> currentStepIndex (snd (handleExportVideo example_export_env example_playing)) = 1
   \<and> recorder (snd (handleExportVideo example_export_env example_playing)) = Paused"
  by (rule example_export_stuck)

lemma exporting_export_segment:
  "isExporting s \<and> \<not> onstop s \<Longrightarrow>
     isExporting (snd (export_segment p i s)) \<and> \<not> onstop (snd (export_segment p i s))"
  by (auto simp: export_segment_def recorder_error_def stop_event_def ondataavailable_def
      Let_def split: sum.splits option.splits)

lemma exporting_export_loop:
  "isExporting s \<and> \<not> onstop s \<Longrightarrow>
     isExporting (snd (export_loop p i n s)) \<and> \<not> onstop (snd (export_loop p i n s))"
proof (induction p i n s rule: export_loop.induct)
  case (1 p i totalSteps s)
  show ?case
  proof (cases "i < totalSteps")
    case False
    then show ?thesis using "1.prems" by simp
  next
    case True
    obtain r s' where seg: "export_segment p i s = (r, s')" by (cases "export_segment p i s")
    have a: "isExporting s' \<and> \<not> onstop s'"
      using exporting_export_segment [OF "1.prems", of p i] seg by simp
    show ?thesis
    proof (cases r)
      case None
      then show ?thesis using "1.IH" True seg a by simp
    next
      case (Some e)
      then show ?thesis using True seg a by simp
    qed
  qed
qed

lemma handleExportVideo_guard: "isExporting s \<Longrightarrow> handleExportVideo p s = (None, s)"
  by (simp add: handleExportVideo_def split: option.splits)

text \<open>
  C7. In every state with \<open>isExporting\<close> true, an export request returns at its guard
  and leaves the whole state as it is: the running job, its chunks and the playback
  state. Every state of a running job is such a state: \<open>isExporting\<close> is true from the
  start of the job through any number of iterations of its loop, failed or not.
\<close>

theorem second_export_is_ignored:
  "(isExporting s \<longrightarrow> handleExportVideo p s = (None, s))
   \<and> (export_begin p s = (None, s1)
       \<longrightarrow> isExporting (snd (export_loop p i n s1))
         \<and> handleExportVideo p' (snd (export_loop p i n s1))
             = (None, snd (export_loop p i n s1)))"
proof -
  have "isExporting (snd (export_loop p i n s1))" if "export_begin p s = (None, s1)"
  proof -
    have "isExporting s1 \<and> \<not> onstop s1"
      using that by (auto simp: export_begin_def getAudioContext_def Let_def split: if_splits)
    then show ?thesis using exporting_export_loop by blast
  qed
  then show ?thesis
    using handleExportVideo_guard by blast
qed

theorem second_export_is_ignored_witness:
  "isExporting (snd (handleExportVideo example_export_env example_playing))
   \<and> handleExportVideo (example_export_env\<lparr>html2canvas := \<lambda>i. None\<rparr>)
        (snd (handleExportVideo example_export_env example_playing))
       = (None, snd (handleExportVideo example_export_env example_playing))"
  using example_export_stuck
    second_export_is_ignored [of "snd (handleExportVideo example_export_env example_playing)"
      "example_export_env\<lparr>html2canvas := \<lambda>i. None\<rparr>"]
  by blast


end
